theory Spec2Isabelle
  imports Main
begin

section \<open>Values, records and the libraries\<close>

text \<open>
  The application (\<^verbatim>\<open>src/app.py\<close>) is glue over the gspread client, the Drive client,
  pandas and Streamlit. Python values that travel through it are strings, booleans,
  integers, floats and the NaN that pandas fills in for missing cells. \<open>PFloat r\<close> is a
  float other than NaN, named by its \<^verbatim>\<open>repr\<close>.
\<close>

datatype pyval = PStr string | PBool bool | PInt int | PFloat string | PNaN

text \<open>
  gspread, the Sheets service behind it and pandas are not code of the repository. The
  model writes out what they do where that is plain, and takes the rest as parameters, so
  that nothing is asserted about it:
  \<^item> \<open>ext_lower\<close>: \<^verbatim>\<open>str.lower\<close> on a text that has a character outside ASCII;
  \<^item> \<open>ext_number_text\<close>: the text that the service shows for a cell that holds a number;
  \<^item> \<open>ext_numericise\<close>: \<^verbatim>\<open>gspread.utils.numericise\<close> on a cell text that is neither plainly
    a text nor plainly an integer (a float, a text with digits, ...);
  \<^item> \<open>ext_numeric_value\<close>: the value that pandas gives back for a value of a column that
    holds numbers only (the column gets one numeric dtype).
\<close>

record ext =
  ext_lower :: "string \<Rightarrow> string"
  ext_number_text :: "pyval \<Rightarrow> string"
  ext_numericise :: "string \<Rightarrow> pyval"
  ext_numeric_value :: "pyval list \<Rightarrow> pyval \<Rightarrow> pyval"

text \<open>
  A Python dict keeps its keys in insertion order and holds each key once: an association
  list whose keys are distinct. \<open>dict_get r k d\<close> is \<^verbatim>\<open>r.get(k, d)\<close>,
  \<open>dict_keys r\<close> is \<^verbatim>\<open>list(r.keys())\<close>, and \<open>dict_of ps\<close> is
  \<^verbatim>\<open>dict(ps)\<close>: a repeated key keeps its first position and its last value.
\<close>

type_synonym pydict = "(pyval \<times> pyval) list"

definition dict_keys :: "pydict \<Rightarrow> pyval list" where
  "dict_keys r = map fst r"

definition dict_get :: "pydict \<Rightarrow> pyval \<Rightarrow> pyval \<Rightarrow> pyval" where
  "dict_get r k d = (case map_of r k of Some v \<Rightarrow> v | None \<Rightarrow> d)"

fun dict_set :: "pyval \<Rightarrow> pyval \<Rightarrow> pydict \<Rightarrow> pydict" where
  "dict_set k v [] = [(k, v)]"
| "dict_set k v (p # ps) = (if fst p = k then (k, v) # ps else p # dict_set k v ps)"

definition dict_of :: "(pyval \<times> pyval) list \<Rightarrow> pydict" where
  "dict_of ps = foldl (\<lambda>d (k, v). dict_set k v d) [] ps"

definition wf_dict :: "pydict \<Rightarrow> bool" where
  "wf_dict r = distinct (map fst r)"

subsection \<open>Texts\<close>

text \<open>
  Characters are bytes, a character outside ASCII being several of them. On an ASCII text
  \<^verbatim>\<open>str.lower\<close> changes the letters \<open>A\<close> to \<open>Z\<close> only; any other text goes to
  \<open>ext_lower\<close>.
\<close>

definition is_ascii :: "char \<Rightarrow> bool" where
  "is_ascii c = ((of_char c :: nat) < 128)"

definition is_digit :: "char \<Rightarrow> bool" where
  "is_digit c = (let n = (of_char c :: nat) in 48 \<le> n \<and> n \<le> 57)"

definition ascii_lower :: "char \<Rightarrow> char" where
  "ascii_lower c =
     (let n = (of_char c :: nat)
      in if 65 \<le> n \<and> n \<le> 90 then char_of (n + 32) else c)"

definition lower :: "ext \<Rightarrow> string \<Rightarrow> string" where
  "lower x s = (if list_all is_ascii s then map ascii_lower s else ext_lower x s)"

definition replace_char :: "char \<Rightarrow> char \<Rightarrow> string \<Rightarrow> string" where
  "replace_char a b s = map (\<lambda>c. if c = a then b else c) s"

text \<open>
  \<^verbatim>\<open>numericise\<close> tries \<^verbatim>\<open>int(value)\<close>, then \<^verbatim>\<open>float(value)\<close>, and keeps the text when
  both fail. Both fail on an ASCII text that has no digit and is not one of the words
  that \<^verbatim>\<open>float\<close> reads (\<open>inf\<close>, \<open>infinity\<close>, \<open>nan\<close>, in any case, with a sign or blanks
  around): \<open>plain_text\<close>. A sign followed by digits, or digits alone, is an integer:
  \<open>plain_int\<close> (up to 4300 digits, the length that every \<^verbatim>\<open>int\<close> accepts). Every
  other text goes to \<open>ext_numericise\<close>.
\<close>

definition ascii_space :: "char \<Rightarrow> bool" where
  "ascii_space c = ((of_char c :: nat) \<in> set [9, 10, 11, 12, 13, 28, 29, 30, 31, 32])"

definition strip :: "string \<Rightarrow> string" where
  "strip s = rev (dropWhile ascii_space (rev (dropWhile ascii_space s)))"

definition unsigned :: "string \<Rightarrow> string" where
  "unsigned s =
     (case s of
        [] \<Rightarrow> []
      | c # cs \<Rightarrow> if c = CHR ''+'' \<or> c = CHR ''-'' then cs else s)"

definition float_word :: "string \<Rightarrow> bool" where
  "float_word s = (map ascii_lower (unsigned (strip s)) \<in> set [''inf'', ''infinity'', ''nan''])"

definition plain_text :: "string \<Rightarrow> bool" where
  "plain_text s = (list_all is_ascii s \<and> \<not> list_ex is_digit s \<and> \<not> float_word s)"

definition digits_value :: "string \<Rightarrow> int" where
  "digits_value s = foldl (\<lambda>a c. 10 * a + (int (of_char c) - 48)) 0 s"

definition plain_int :: "string \<Rightarrow> int option" where
  "plain_int s =
     (case s of
        [] \<Rightarrow> None
      | c # cs \<Rightarrow>
          if c = CHR ''-'' then
            (if cs \<noteq> [] \<and> list_all is_digit cs \<and> length cs \<le> 4300
             then Some (- digits_value cs) else None)
          else if c = CHR ''+'' then
            (if cs \<noteq> [] \<and> list_all is_digit cs \<and> length cs \<le> 4300
             then Some (digits_value cs) else None)
          else if list_all is_digit s \<and> length s \<le> 4300 then Some (digits_value s)
          else None)"

definition numericise :: "ext \<Rightarrow> string \<Rightarrow> pyval" where
  "numericise x s =
     (if plain_text s then PStr s
      else case plain_int s of Some n \<Rightarrow> PInt n | None \<Rightarrow> ext_numericise x s)"

subsection \<open>The spreadsheet store\<close>

text \<open>
  A worksheet has a title, the size it was created with, and a grid of cells, row by row,
  each holding the value that was written. A spreadsheet is the list of its worksheets,
  and the client \<^verbatim>\<open>gc\<close> reaches the spreadsheets by key: the model identifies the handle
  with the state of the store behind it. The limits of the grid are outside the model.
\<close>

type_synonym grid = "pyval list list"

record worksheet =
  ws_title :: string
  ws_rows :: nat
  ws_cols :: nat
  ws_cells :: grid

type_synonym spreadsheet = "worksheet list"

type_synonym client = "string \<rightharpoonup> spreadsheet"

datatype error =
    SpreadsheetNotFound string
  | WorksheetNotFound string
  | APIError string
  | GSpreadException
  | InvalidJSONError
  | KeyError string
  | CredentialsError

text \<open>\<^verbatim>\<open>gc.open_by_key(sheet_id)\<close> and \<^verbatim>\<open>sh.worksheet(name)\<close> raise when nothing is found.\<close>

definition open_by_key :: "client \<Rightarrow> string \<Rightarrow> error + spreadsheet" where
  "open_by_key gc sheet_id =
     (case gc sheet_id of None \<Rightarrow> Inl (SpreadsheetNotFound sheet_id) | Some sh \<Rightarrow> Inr sh)"

definition worksheet :: "spreadsheet \<Rightarrow> string \<Rightarrow> error + worksheet" where
  "worksheet sh name =
     (case find (\<lambda>w. ws_title w = name) sh of
        None \<Rightarrow> Inl (WorksheetNotFound name)
      | Some w \<Rightarrow> Inr w)"

text \<open>
  \<^verbatim>\<open>ws.update('A1', data)\<close> sends \<open>data\<close> as JSON. NaN and the infinities have no
  JSON form: the call raises before anything is sent, and the store keeps what it held.
  Otherwise the service sets the cells of the rectangle whose top-left corner is the
  first cell: row \<open>i\<close> of \<open>data\<close> goes over the first cells of row \<open>i\<close> of the grid.
  Cells that \<open>data\<close> does not cover keep what they held.
\<close>

fun json_ok :: "pyval \<Rightarrow> bool" where
  "json_ok PNaN = False"
| "json_ok (PFloat r) = (r \<noteq> ''inf'' \<and> r \<noteq> ''-inf'')"
| "json_ok (PStr s) = True"
| "json_ok (PBool b) = True"
| "json_ok (PInt n) = True"

definition overlay_row :: "pyval list \<Rightarrow> pyval list \<Rightarrow> pyval list" where
  "overlay_row new old = new @ drop (length new) old"

fun update_A1 :: "grid \<Rightarrow> grid \<Rightarrow> grid" where
  "update_A1 [] old = old"
| "update_A1 (d # ds) [] = d # update_A1 ds []"
| "update_A1 (d # ds) (r # rs) = overlay_row d r # update_A1 ds rs"

text \<open>The write reaches the first worksheet of that title, the one \<open>worksheet\<close> returns.\<close>

fun replace_ws :: "string \<Rightarrow> (worksheet \<Rightarrow> worksheet) \<Rightarrow> spreadsheet \<Rightarrow> spreadsheet" where
  "replace_ws name f [] = []"
| "replace_ws name f (w # ws) =
     (if ws_title w = name then f w # ws else w # replace_ws name f ws)"

definition ws_update :: "client \<Rightarrow> string \<Rightarrow> string \<Rightarrow> grid \<Rightarrow> client \<times> (error + unit)" where
  "ws_update gc sheet_id name data =
     (if \<not> list_all (list_all json_ok) data then (gc, Inl InvalidJSONError)
      else case gc sheet_id of
        None \<Rightarrow> (gc, Inl (SpreadsheetNotFound sheet_id))
      | Some sh \<Rightarrow>
          (gc(sheet_id \<mapsto> replace_ws name (\<lambda>w. w\<lparr>ws_cells := update_A1 data (ws_cells w)\<rparr>) sh),
           Inr ()))"

text \<open>
  Reading gives texts. The service shows a string as it is, a boolean as \<open>TRUE\<close> or
  \<open>FALSE\<close> and a number as \<open>ext_number_text\<close> says; it leaves out the empty cells at the
  end of a row and the empty rows at the end of the sheet. gspread pads the rows it gets
  with empty strings to one width (\<open>fill_gaps\<close>).
\<close>

definition cell_text :: "ext \<Rightarrow> pyval \<Rightarrow> string" where
  "cell_text x v =
     (case v of
        PStr s \<Rightarrow> s
      | PBool b \<Rightarrow> (if b then ''TRUE'' else ''FALSE'')
      | PInt n \<Rightarrow> ext_number_text x v
      | PFloat r \<Rightarrow> ext_number_text x v
      | PNaN \<Rightarrow> ext_number_text x v)"

definition trim_row :: "string list \<Rightarrow> string list" where
  "trim_row r = rev (dropWhile (\<lambda>s. s = []) (rev r))"

definition trim_rows :: "string list list \<Rightarrow> string list list" where
  "trim_rows g = rev (dropWhile (\<lambda>r. r = []) (rev g))"

definition fill_gaps :: "string list list \<Rightarrow> string list list" where
  "fill_gaps g =
     (let w = foldr (\<lambda>r m. max (length r) m) g 0
      in map (\<lambda>r. r @ replicate (w - length r) []) g)"

definition get_all_values :: "ext \<Rightarrow> worksheet \<Rightarrow> string list list" where
  "get_all_values x ws =
     fill_gaps (trim_rows (map (\<lambda>r. trim_row (map (cell_text x) r)) (ws_cells ws)))"

text \<open>
  \<^verbatim>\<open>ws.get_all_records()\<close>: no row gives no record; the first row gives the keys and
  must not repeat one; every later row is numericised and becomes
  \<^verbatim>\<open>dict(zip(keys, row))\<close>.
\<close>

definition get_all_records :: "ext \<Rightarrow> worksheet \<Rightarrow> error + pydict list" where
  "get_all_records x ws =
     (case get_all_values x ws of
        [] \<Rightarrow> Inr []
      | keys # vals \<Rightarrow>
          if \<not> distinct keys then Inl GSpreadException
          else Inr (map (\<lambda>row. dict_of (zip (map PStr keys) (map (numericise x) row))) vals))"

section \<open>The spreadsheet gateway of \<^verbatim>\<open>app.py\<close>\<close>

text \<open>
  \<^verbatim>\<open>
  def read_sheet(gc, sheet_id, name):
      sh = gc.open_by_key(sheet_id)
      ws = sh.worksheet(name)
      return ws.get_all_records()
  \<close>
\<close>

definition read_sheet :: "ext \<Rightarrow> client \<Rightarrow> string \<Rightarrow> string \<Rightarrow> error + pydict list" where
  "read_sheet x gc sheet_id name =
     (case open_by_key gc sheet_id of
        Inl e \<Rightarrow> Inl e
      | Inr sh \<Rightarrow>
          (case worksheet sh name of
             Inl e \<Rightarrow> Inl e
           | Inr ws \<Rightarrow> get_all_records x ws))"

text \<open>
  \<^verbatim>\<open>
  def upsert_sheet(gc, sheet_id, name, rows):
      sh = gc.open_by_key(sheet_id)
      ws = sh.worksheet(name)
      if not rows:
          return
      headers = list(rows[0].keys())
      data = [headers] + [[r.get(h, "") for h in headers] for r in rows]
      ws.update('A1', data)
  \<close>
  \<open>upsert_data\<close> is the value of \<^verbatim>\<open>data\<close>; it is only computed past the guard, where
  \<^verbatim>\<open>rows[0]\<close> exists. The function returns the store it leaves behind and how it ended.
\<close>

definition upsert_data :: "pydict \<Rightarrow> pydict list \<Rightarrow> grid" where
  "upsert_data r0 rows =
     (let headers = dict_keys r0
      in headers # map (\<lambda>r. map (\<lambda>h. dict_get r h (PStr '''')) headers) rows)"

definition upsert_sheet ::
  "client \<Rightarrow> string \<Rightarrow> string \<Rightarrow> pydict list \<Rightarrow> client \<times> (error + unit)" where
  "upsert_sheet gc sheet_id name rows =
     (case open_by_key gc sheet_id of
        Inl e \<Rightarrow> (gc, Inl e)
      | Inr sh \<Rightarrow>
          (case worksheet sh name of
             Inl e \<Rightarrow> (gc, Inl e)
           | Inr ws \<Rightarrow>
               (case rows of
                  [] \<Rightarrow> (gc, Inr ())
                | r0 # _ \<Rightarrow> ws_update gc sheet_id name (upsert_data r0 rows))))"

text \<open>
  \<^verbatim>\<open>
  def ensure_sheets(sh):
      needed = ["competitors","files","financial_runs","financial_metrics","news"]
      existing = [w.title for w in sh.worksheets()]
      for name in needed:
          if name not in existing:
              sh.add_worksheet(title=name, rows=100, cols=26)
  \<close>
  \<^verbatim>\<open>existing\<close> is read once, before the loop. The service refuses a second worksheet
  of a title it already has; a new worksheet is blank.
\<close>

definition needed :: "string list" where
  "needed = [''competitors'', ''files'', ''financial_runs'', ''financial_metrics'', ''news'']"

definition new_worksheet :: "string \<Rightarrow> nat \<Rightarrow> nat \<Rightarrow> worksheet" where
  "new_worksheet t r c = \<lparr>ws_title = t, ws_rows = r, ws_cols = c, ws_cells = []\<rparr>"

definition add_worksheet ::
  "spreadsheet \<Rightarrow> string \<Rightarrow> nat \<Rightarrow> nat \<Rightarrow> spreadsheet \<times> (error + unit)" where
  "add_worksheet sh t r c =
     (if t \<in> set (map ws_title sh) then (sh, Inl (APIError t))
      else (sh @ [new_worksheet t r c], Inr ()))"

fun ensure_loop ::
  "string list \<Rightarrow> string list \<Rightarrow> spreadsheet \<Rightarrow> spreadsheet \<times> (error + unit)" where
  "ensure_loop existing [] sh = (sh, Inr ())"
| "ensure_loop existing (name # rest) sh =
     (if name \<notin> set existing then
        (case add_worksheet sh name 100 26 of
           (sh', Inl e) \<Rightarrow> (sh', Inl e)
         | (sh', Inr u) \<Rightarrow> ensure_loop existing rest sh')
      else ensure_loop existing rest sh)"

definition ensure_sheets :: "spreadsheet \<Rightarrow> spreadsheet \<times> (error + unit)" where
  "ensure_sheets sh = (let existing = map ws_title sh in ensure_loop existing needed sh)"

section \<open>The competitor identifier\<close>

text \<open>\<^verbatim>\<open>"id": (name.lower().replace(" ","-") if name else "")\<close>.\<close>

definition competitor_id :: "ext \<Rightarrow> string \<Rightarrow> string" where
  "competitor_id x name =
     (if name \<noteq> [] then replace_char CHR '' '' CHR ''-'' (lower x name) else [])"

section \<open>Data frames\<close>

text \<open>
  Of a data frame the pages use its columns and its rows.
  \<^verbatim>\<open>pd.DataFrame(records)\<close> takes the columns from the keys of the records in order of
  first appearance and fills a missing cell with NaN; \<^verbatim>\<open>df.empty\<close> holds when there is
  no row or no column; \<^verbatim>\<open>pd.concat([a, b], ignore_index=True)\<close> puts the rows of
  \<open>b\<close> under those of \<open>a\<close> over the union of the columns;
  \<^verbatim>\<open>df.to_dict(orient="records")\<close> gives one dict per row. A column that holds a
  string or a boolean keeps its values as they are (dtype \<^verbatim>\<open>object\<close> or \<^verbatim>\<open>bool\<close>); the
  values of a column of numbers only are what \<open>ext_numeric_value\<close> says (\<open>box\<close>).
\<close>

record dataframe =
  df_columns :: "pyval list"
  df_rows :: "pyval list list"

fun union_cols :: "pyval list \<Rightarrow> pyval list \<Rightarrow> pyval list" where
  "union_cols cs [] = cs"
| "union_cols cs (k # ks) = union_cols (if k \<in> set cs then cs else cs @ [k]) ks"

fun is_number :: "pyval \<Rightarrow> bool" where
  "is_number (PInt n) = True"
| "is_number (PFloat r) = True"
| "is_number PNaN = True"
| "is_number (PStr s) = False"
| "is_number (PBool b) = False"

definition box :: "ext \<Rightarrow> pyval list \<Rightarrow> pyval \<Rightarrow> pyval" where
  "box x col v = (if list_all is_number col then ext_numeric_value x col v else v)"

definition DataFrame :: "ext \<Rightarrow> pydict list \<Rightarrow> dataframe" where
  "DataFrame x recs =
     (let cols = foldl (\<lambda>cs r. union_cols cs (dict_keys r)) [] recs;
          col = (\<lambda>c. map (\<lambda>r. dict_get r c PNaN) recs)
      in \<lparr>df_columns = cols,
          df_rows = map (\<lambda>r. map (\<lambda>c. box x (col c) (dict_get r c PNaN)) cols) recs\<rparr>)"

definition empty_frame :: dataframe where
  "empty_frame = \<lparr>df_columns = [], df_rows = []\<rparr>"

definition info_frame :: "string \<Rightarrow> dataframe" where
  "info_frame msg = \<lparr>df_columns = [PStr ''info''], df_rows = [[PStr msg]]\<rparr>"

definition df_empty :: "dataframe \<Rightarrow> bool" where
  "df_empty df = (df_columns df = [] \<or> df_rows df = [])"

text \<open>\<open>df_value df row c\<close> is the value of a row in column \<open>c\<close>, NaN where the frame has no such column.\<close>

definition df_value :: "dataframe \<Rightarrow> pyval list \<Rightarrow> pyval \<Rightarrow> pyval" where
  "df_value df row c = dict_get (zip (df_columns df) row) c PNaN"

definition df_column :: "dataframe \<Rightarrow> pyval \<Rightarrow> pyval list" where
  "df_column df c = map (\<lambda>row. df_value df row c) (df_rows df)"

definition df_concat :: "ext \<Rightarrow> dataframe \<Rightarrow> dataframe \<Rightarrow> dataframe" where
  "df_concat x a b =
     (let cols = union_cols (df_columns a) (df_columns b);
          col = (\<lambda>c. df_column a c @ df_column b c);
          fit = (\<lambda>df row. map (\<lambda>c. box x (col c) (df_value df row c)) cols)
      in \<lparr>df_columns = cols,
          df_rows = map (fit a) (df_rows a) @ map (fit b) (df_rows b)\<rparr>)"

definition to_dict_records :: "dataframe \<Rightarrow> pydict list" where
  "to_dict_records df = map (\<lambda>row. dict_of (zip (df_columns df) row)) (df_rows df)"

section \<open>The pages\<close>

text \<open>
  A page renders Streamlit elements in order and may end by an exception; what was
  rendered before stays rendered. \<open>Stopped\<close> is the end of the script run by
  \<^verbatim>\<open>st.stop()\<close>.
\<close>

datatype ui =
    Header string
  | Subheader string
  | Dataframe dataframe
  | Info string
  | Write string
  | Markdown string
  | Success string
  | TextInput string
  | FormSubmitButton string
  | SidebarTitle string
  | SidebarCaption string
  | SidebarWrite string
  | SidebarMarkdown string
  | SidebarRadio string "string list"

datatype outcome = Done | Raised error | Stopped

subsection \<open>Competitors\<close>

text \<open>The ten text inputs of the form \<^verbatim>\<open>comp_form\<close> and its submit button.\<close>

record comp_form =
  f_name :: string
  f_website :: string
  f_ir_url :: string
  f_news_rss :: string
  f_linkedin_url :: string
  f_tickers :: string
  f_currency :: string
  f_fiscal_notes :: string
  f_drive_folder_id :: string
  f_tags :: string
  f_submitted :: bool

definition form_elements :: "ui list" where
  "form_elements =
     [TextInput ''Name'', TextInput ''Website'', TextInput ''IR URL'',
      TextInput ''News RSS (optional)'', TextInput ''LinkedIn (optional)'',
      TextInput ''Tickers (comma-separated)'', TextInput ''Currency (e.g., EUR)'',
      TextInput ''Fiscal calendar notes'', TextInput ''Drive folder ID (optional now)'',
      TextInput ''Tags (comma-separated)'', FormSubmitButton ''Save'']"

text \<open>The dict \<^verbatim>\<open>new\<close> of lines 79 to 85.\<close>

definition new_record :: "ext \<Rightarrow> comp_form \<Rightarrow> pydict" where
  "new_record x f =
     [(PStr ''id'', PStr (competitor_id x (f_name f))),
      (PStr ''name'', PStr (f_name f)),
      (PStr ''website'', PStr (f_website f)),
      (PStr ''ir_url'', PStr (f_ir_url f)),
      (PStr ''news_rss'', PStr (f_news_rss f)),
      (PStr ''linkedin_url'', PStr (f_linkedin_url f)),
      (PStr ''tickers'', PStr (f_tickers f)),
      (PStr ''currency'', PStr (f_currency f)),
      (PStr ''fiscal_calendar_notes'', PStr (f_fiscal_notes f)),
      (PStr ''drive_folder_id'', PStr (f_drive_folder_id f)),
      (PStr ''tags'', PStr (f_tags f)),
      (PStr ''active(bool)'', PBool True),
      (PStr ''created_at'', PStr ''''),
      (PStr ''updated_at'', PStr '''')]"

text \<open>
  \<^verbatim>\<open>
  df = pd.concat([df, pd.DataFrame([new])], ignore_index=True) if not df.empty else pd.DataFrame([new])
  upsert_sheet(gc, sheet_id, "competitors", df.to_dict(orient="records"))
  \<close>
  \<open>submitted_records x rows f\<close> is the argument of that call, for the rows read from the
  table and the submitted form.
\<close>

definition submitted_records :: "ext \<Rightarrow> pydict list \<Rightarrow> comp_form \<Rightarrow> pydict list" where
  "submitted_records x rows f =
     (let df = DataFrame x rows;
          df' = (if \<not> df_empty df then df_concat x df (DataFrame x [new_record x f])
                 else DataFrame x [new_record x f])
      in to_dict_records df')"

definition page_competitors ::
  "ext \<Rightarrow> client \<Rightarrow> string \<Rightarrow> comp_form \<Rightarrow> client \<times> ui list \<times> outcome" where
  "page_competitors x gc sheet_id f =
     (let ui0 = [Header ''Competitors''] in
      case open_by_key gc sheet_id of
        Inl e \<Rightarrow> (gc, ui0, Raised e)
      | Inr sh \<Rightarrow>
          (case ensure_sheets sh of
             (sh1, Inl e) \<Rightarrow> (gc(sheet_id \<mapsto> sh1), ui0, Raised e)
           | (sh1, Inr u) \<Rightarrow>
               (let gc1 = gc(sheet_id \<mapsto> sh1) in
                case read_sheet x gc1 sheet_id ''competitors'' of
                  Inl e \<Rightarrow> (gc1, ui0, Raised e)
                | Inr rows \<Rightarrow>
                    (let df = DataFrame x rows;
                         ui1 = ui0 @
                           [Subheader ''Database'',
                            Dataframe (if \<not> df_empty df then df else info_frame ''No rows yet''),
                            Subheader ''Add / Edit''] @ form_elements
                     in if f_submitted f then
                          (case upsert_sheet gc1 sheet_id ''competitors'' (submitted_records x rows f) of
                             (gc2, Inl e) \<Rightarrow> (gc2, ui1, Raised e)
                           | (gc2, Inr u) \<Rightarrow> (gc2, ui1 @ [Success ''Saved!''], Done))
                        else (gc1, ui1, Done)))))"

subsection \<open>Library\<close>

text \<open>
  The Drive client is the third external service. \<open>drive q fields\<close> stands for
  \<^verbatim>\<open>drive_service.files().list(q=q, fields=fields).execute()\<close> followed by the lookup of
  \<^verbatim>\<open>"files"\<close> in the response: an error, a response without the key, or the list of
  entries. An entry is a dict of strings.
\<close>

type_synonym file_entry = "(string \<times> string) list"

type_synonym drive_service = "string \<Rightarrow> string \<Rightarrow> error + file_entry list option"

definition emdash :: string where
  "emdash = [CHR 0xE2, CHR 0x80, CHR 0x94]"

text \<open>
  \<^verbatim>\<open>f"- [{it['name']}]({it.get('webViewLink')}) <em dash> {it['mimeType']}"\<close>: a missing
  name or MIME type raises \<^verbatim>\<open>KeyError\<close>, a missing link prints as \<^verbatim>\<open>None\<close>.
\<close>

definition item_line :: "file_entry \<Rightarrow> error + string" where
  "item_line it =
     (case map_of it ''name'' of
        None \<Rightarrow> Inl (KeyError ''name'')
      | Some n \<Rightarrow>
          (let link = (case map_of it ''webViewLink'' of None \<Rightarrow> ''None'' | Some l \<Rightarrow> l) in
           case map_of it ''mimeType'' of
             None \<Rightarrow> Inl (KeyError ''mimeType'')
           | Some m \<Rightarrow> Inr (''- ['' @ n @ '']('' @ link @ '') '' @ emdash @ '' '' @ m)))"

fun write_items :: "file_entry list \<Rightarrow> ui list \<times> outcome" where
  "write_items [] = ([], Done)"
| "write_items (it # its) =
     (case item_line it of
        Inl e \<Rightarrow> ([], Raised e)
      | Inr line \<Rightarrow> (case write_items its of (us, out) \<Rightarrow> (Write line # us, out)))"

definition children_query :: "string \<Rightarrow> string" where
  "children_query top_folder_id =
     [CHR 0x27] @ top_folder_id @ [CHR 0x27] @ '' in parents and trashed=false''"

text \<open>
  Lines 95 to 97 of \<^verbatim>\<open>page_library\<close>, the folder query that the specification calls
  \<^verbatim>\<open>list_children\<close>:
  \<^verbatim>\<open>
  q = f"'{top_folder_id}' in parents and trashed=false"
  resp = drive_service.files().list(q=q, fields="files(id,name,mimeType,webViewLink)").execute()
  items = resp.get("files", [])
  \<close>
\<close>

definition list_children :: "drive_service \<Rightarrow> string \<Rightarrow> error + file_entry list" where
  "list_children drive top_folder_id =
     (case drive (children_query top_folder_id) ''files(id,name,mimeType,webViewLink)'' of
        Inl e \<Rightarrow> Inl e
      | Inr resp \<Rightarrow> Inr (case resp of None \<Rightarrow> [] | Some fs \<Rightarrow> fs))"

definition page_library :: "drive_service \<Rightarrow> string \<Rightarrow> ui list \<times> outcome" where
  "page_library drive top_folder_id =
     (let ui0 = [Header ''Library (Google Drive)''] in
      if top_folder_id = [] then
        (ui0 @ [Info ''Set google.drive_top_folder_id in secrets and share that folder with your Service Account.''],
         Done)
      else
        (case list_children drive top_folder_id of
           Inl e \<Rightarrow> (ui0, Raised e)
         | Inr items \<Rightarrow>
             (let ui1 = ui0 @
                    (if items = []
                     then [Write ''No items yet. Create a subfolder per competitor and drop files there.'']
                     else [])
              in case write_items items of (us, out) \<Rightarrow> (ui1 @ us, out))))"

subsection \<open>Automations\<close>

definition page_automations :: "ui list \<times> outcome" where
  "page_automations =
     ([Header ''Automations (coming in Phase 2)'',
       Write (''Here you'' @ [CHR 0xE2, CHR 0x80, CHR 0x99] @ ''ll later have buttons to trigger:''),
       Markdown (''- Financials: Discover'' @ [CHR 0xE2, CHR 0x86, CHR 0x92] @ ''Download'' @ [CHR 0x0A]
         @ ''- Financials: Parse'' @ [CHR 0xE2, CHR 0x86, CHR 0x92] @ ''Summarize'' @ [CHR 0x0A]
         @ ''- Biweekly News'' @ [CHR 0x0A] @ ''- Deck Builder''),
       Info (''We'' @ [CHR 0xE2, CHR 0x80, CHR 0x99]
         @ ''ll add an OpenAI Agent + a simple scheduler in Phase 2.'')],
      Done)"

subsection \<open>Reports\<close>

text \<open>
  \<^verbatim>\<open>
  try:
      fm = pd.DataFrame(read_sheet(gc, sheet_id, "financial_metrics"))
  except Exception:
      fm = pd.DataFrame()
  \<close>
  and the same for \<^verbatim>\<open>news\<close>; every error of \<open>read_sheet\<close> is an \<^verbatim>\<open>Exception\<close>.
\<close>

definition frame_or_empty :: "ext \<Rightarrow> error + pydict list \<Rightarrow> dataframe" where
  "frame_or_empty x r = (case r of Inl e \<Rightarrow> empty_frame | Inr rows \<Rightarrow> DataFrame x rows)"

definition page_reports :: "ext \<Rightarrow> client \<Rightarrow> string \<Rightarrow> ui list \<times> outcome" where
  "page_reports x gc sheet_id =
     (let fm = frame_or_empty x (read_sheet x gc sheet_id ''financial_metrics'');
          news = frame_or_empty x (read_sheet x gc sheet_id ''news'')
      in ([Header ''Reports'',
           Subheader ''Financial metrics'',
           Dataframe (if \<not> df_empty fm then fm else info_frame ''No data yet''),
           Subheader ''News'',
           Dataframe (if \<not> df_empty news then news else info_frame ''No data yet'')],
          Done))"

section \<open>The application frame\<close>

text \<open>
  \<^verbatim>\<open>st.secrets\<close> is a dict of groups. One run of \<open>main\<close> depends on the secrets, the
  formatted local time, the page chosen in the sidebar, the form as the user left it, the
  clients that \<^verbatim>\<open>st.cache_resource\<close> kept from earlier runs, and on whether the
  credential payload parses (\<^verbatim>\<open>json.loads\<close>, \<^verbatim>\<open>from_service_account_info\<close>).
\<close>

type_synonym secrets = "string \<rightharpoonup> (string \<rightharpoonup> string)"

definition secret :: "secrets \<Rightarrow> string \<Rightarrow> string \<Rightarrow> string option" where
  "secret s g k = (case s g of None \<Rightarrow> None | Some m \<Rightarrow> m k)"

record env =
  env_secrets :: secrets
  env_now :: string
  env_page :: string
  env_form :: comp_form
  env_gc_cache :: "string option"
  env_drive_cache :: "string option"
  env_creds_ok :: "string \<Rightarrow> bool"

datatype 'a result = Value 'a | Stop | Raise error

text \<open>
  \<^verbatim>\<open>
  def get_sa_creds():
      sa_json = st.secrets.get("google", {}).get("service_account_json")
      if not sa_json:
          st.stop()
      return service_account.Credentials.from_service_account_info(json.loads(sa_json), ...)
  \<close>
\<close>

definition get_sa_creds :: "env \<Rightarrow> string result" where
  "get_sa_creds e =
     (case secret (env_secrets e) ''google'' ''service_account_json'' of
        None \<Rightarrow> Stop
      | Some sa_json \<Rightarrow>
          if sa_json = [] then Stop
          else if env_creds_ok e sa_json then Value sa_json
          else Raise CredentialsError)"

definition get_gspread_client :: "env \<Rightarrow> string result" where
  "get_gspread_client e =
     (case env_gc_cache e of Some c \<Rightarrow> Value c | None \<Rightarrow> get_sa_creds e)"

definition get_drive_service :: "env \<Rightarrow> string result" where
  "get_drive_service e =
     (case env_drive_cache e of Some c \<Rightarrow> Value c | None \<Rightarrow> get_sa_creds e)"

definition or_default :: "string option \<Rightarrow> string \<Rightarrow> string" where
  "or_default v d = (case v of None \<Rightarrow> d | Some x \<Rightarrow> x)"

definition sidebar_top :: "env \<Rightarrow> ui list" where
  "sidebar_top e =
     [SidebarTitle ''Competitor Intelligence'',
      SidebarCaption (''Local time: '' @ env_now e),
      SidebarWrite (''Timezone: '' @ or_default (secret (env_secrets e) ''general'' ''timezone'') ''Europe/Berlin''),
      SidebarRadio ''Navigate'' [''Competitors'', ''Library'', ''Automations'', ''Reports'']]"

definition sidebar_bottom :: "string \<Rightarrow> string \<Rightarrow> ui list" where
  "sidebar_bottom sheet_id drive_top_folder_id =
     [SidebarMarkdown ''---'',
      SidebarWrite (''Google Sheet ID: '' @ (if sheet_id \<noteq> [] then sheet_id else ''unset'')),
      SidebarWrite (''Drive folder: '' @ (if drive_top_folder_id \<noteq> [] then drive_top_folder_id else ''unset''))]"

definition run_page ::
  "ext \<Rightarrow> env \<Rightarrow> client \<Rightarrow> drive_service \<Rightarrow> string \<Rightarrow> string \<Rightarrow>
     client \<times> ui list \<times> outcome" where
  "run_page x e gc drive sheet_id drive_top_folder_id =
     (if env_page e = ''Competitors'' then page_competitors x gc sheet_id (env_form e)
      else if env_page e = ''Library'' then
        (case page_library drive drive_top_folder_id of (us, out) \<Rightarrow> (gc, us, out))
      else if env_page e = ''Automations'' then
        (case page_automations of (us, out) \<Rightarrow> (gc, us, out))
      else (case page_reports x gc sheet_id of (us, out) \<Rightarrow> (gc, us, out)))"

definition main ::
  "ext \<Rightarrow> env \<Rightarrow> client \<Rightarrow> drive_service \<Rightarrow> client \<times> ui list \<times> outcome" where
  "main x e gc drive =
     (let ui0 = sidebar_top e;
          sheet_id = or_default (secret (env_secrets e) ''google'' ''sheet_id'') '''';
          drive_top_folder_id = or_default (secret (env_secrets e) ''google'' ''drive_top_folder_id'') ''''
      in case get_gspread_client e of
           Stop \<Rightarrow> (gc, ui0, Stopped)
         | Raise err \<Rightarrow> (gc, ui0, Raised err)
         | Value c \<Rightarrow>
             (case get_drive_service e of
                Stop \<Rightarrow> (gc, ui0, Stopped)
              | Raise err \<Rightarrow> (gc, ui0, Raised err)
              | Value d \<Rightarrow>
                  (case run_page x e gc drive sheet_id drive_top_folder_id of
                     (gc', us, Done) \<Rightarrow>
                       (gc', ui0 @ us @ sidebar_bottom sheet_id drive_top_folder_id, Done)
                   | (gc', us, out) \<Rightarrow> (gc', ui0 @ us, out))))"

section \<open>Vocabulary of the properties\<close>

text \<open>
  \<open>cell g i j\<close> is the content of row \<open>i\<close>, column \<open>j\<close> of a grid, counted from
  the first cell, where the grid holds one. \<open>dict_del k r\<close> is the dict \<open>r\<close> without
  the key \<open>k\<close>. \<open>table gc sheet_id name\<close> is the worksheet that both gateway functions
  reach. A key is a \<open>text_key\<close> when it is a text that is not empty; a value
  \<open>reads_back\<close> when it can be sent and the text that the service shows for it is
  numericised to the value itself.
\<close>

definition cell :: "grid \<Rightarrow> nat \<Rightarrow> nat \<Rightarrow> pyval option" where
  "cell g i j = (if i < length g \<and> j < length (g ! i) then Some (g ! i ! j) else None)"

definition dict_del :: "pyval \<Rightarrow> pydict \<Rightarrow> pydict" where
  "dict_del k r = filter (\<lambda>p. fst p \<noteq> k) r"

definition text_key :: "pyval \<Rightarrow> bool" where
  "text_key k = (case k of PStr s \<Rightarrow> s \<noteq> [] | _ \<Rightarrow> False)"

definition reads_back :: "ext \<Rightarrow> pyval \<Rightarrow> bool" where
  "reads_back x v = (json_ok v \<and> numericise x (cell_text x v) = v)"

definition table :: "client \<Rightarrow> string \<Rightarrow> string \<Rightarrow> error + worksheet" where
  "table gc sheet_id name =
     (case open_by_key gc sheet_id of Inl e \<Rightarrow> Inl e | Inr sh \<Rightarrow> worksheet sh name)"

section \<open>Properties\<close>

text \<open>
  C4. The identifier derived from the name \<open>Acme Corp\<close> is \<open>acme-corp\<close>, and the
  identifier derived from the empty name is the empty string, whatever \<^verbatim>\<open>str.lower\<close> does
  outside ASCII.
\<close>

theorem competitor_id_examples:
  "competitor_id x ''Acme Corp'' = ''acme-corp'' \<and> competitor_id x '''' = ''''"
  by code_simp

text \<open>
  C2. Writing an empty sequence of records leaves the whole store as it was, whatever the
  table name: no update is sent. Where the spreadsheet and the table exist the call
  returns normally, so a request to delete every row is ignored without a sign; otherwise
  the lookup raises, and the store is untouched as well.
\<close>

theorem upsert_sheet_empty_noop:
  "fst (upsert_sheet gc sheet_id name []) = gc \<and>
   snd (upsert_sheet gc sheet_id name []) =
     (case open_by_key gc sheet_id of
        Inl e \<Rightarrow> Inl e
      | Inr sh \<Rightarrow> (case worksheet sh name of Inl e \<Rightarrow> Inl e | Inr ws \<Rightarrow> Inr ()))"
  by (simp add: upsert_sheet_def split: sum.splits)

subsection \<open>Ensuring the required tables\<close>

lemma ensure_loop_closed:
  "distinct ns \<Longrightarrow> (\<forall>n \<in> set ns. n \<notin> set ex \<longrightarrow> n \<notin> set (map ws_title sh)) \<Longrightarrow>
   ensure_loop ex ns sh =
     (sh @ map (\<lambda>n. new_worksheet n 100 26) (filter (\<lambda>n. n \<notin> set ex) ns), Inr ())"
proof (induction ns arbitrary: sh)
  case Nil
  then show ?case by simp
next
  case (Cons n ns)
  show ?case
  proof (cases "n \<in> set ex")
    case True
    with Cons show ?thesis by simp
  next
    case False
    with Cons.prems have fresh: "n \<notin> set (map ws_title sh)" by simp
    have step: "add_worksheet sh n 100 26 = (sh @ [new_worksheet n 100 26], Inr ())"
      using fresh by (simp add: add_worksheet_def)
    have "\<forall>m \<in> set ns. m \<notin> set ex \<longrightarrow> m \<notin> set (map ws_title (sh @ [new_worksheet n 100 26]))"
      using Cons.prems by (auto simp: new_worksheet_def)
    with Cons have "ensure_loop ex ns (sh @ [new_worksheet n 100 26]) =
      ((sh @ [new_worksheet n 100 26]) @ map (\<lambda>n. new_worksheet n 100 26) (filter (\<lambda>n. n \<notin> set ex) ns), Inr ())"
      by simp
    with False step show ?thesis by simp
  qed
qed

lemma distinct_needed: "distinct needed"
  by (simp add: needed_def)

lemma ensure_sheets_closed:
  "ensure_sheets sh =
     (sh @ map (\<lambda>n. new_worksheet n 100 26) (filter (\<lambda>n. n \<notin> set (map ws_title sh)) needed), Inr ())"
  unfolding ensure_sheets_def Let_def
  by (rule ensure_loop_closed) (simp_all add: distinct_needed)

lemma titles_created:
  "map ws_title (map (\<lambda>n. new_worksheet n r c) ns) = ns"
  by (induction ns) (simp_all add: new_worksheet_def)

lemma ensure_sheets_has_needed:
  "set needed \<subseteq> set (map ws_title (fst (ensure_sheets sh)))"
  by (auto simp: ensure_sheets_closed titles_created simp del: map_map)

lemma ensure_sheets_idem:
  "ensure_sheets (fst (ensure_sheets sh)) = (fst (ensure_sheets sh), Inr ())"
proof -
  have "filter (\<lambda>n. n \<notin> set (map ws_title (fst (ensure_sheets sh)))) needed = []"
    using ensure_sheets_has_needed [of sh] by (auto simp: filter_empty_conv)
  then show ?thesis
    by (subst ensure_sheets_closed) simp
qed

text \<open>
  C3. \<open>ensure_sheets\<close> never raises; it keeps every existing worksheet as it is and
  appends one worksheet for each of the five required titles that is not present yet, in
  the order of the list, so that all five are present afterwards and no title that was
  unique becomes duplicated. A second call in succession changes nothing.
\<close>

theorem ensure_sheets_idempotent:
  "snd (ensure_sheets sh) = Inr () \<and>
   (\<exists>created. fst (ensure_sheets sh) = sh @ created \<and>
      map ws_title created =
        filter (\<lambda>n. n \<notin> set (map ws_title sh))
          [''competitors'', ''files'', ''financial_runs'', ''financial_metrics'', ''news'']) \<and>
   {''competitors'', ''files'', ''financial_runs'', ''financial_metrics'', ''news''}
     \<subseteq> set (map ws_title (fst (ensure_sheets sh))) \<and>
   (distinct (map ws_title sh) \<longrightarrow> distinct (map ws_title (fst (ensure_sheets sh)))) \<and>
   ensure_sheets (fst (ensure_sheets sh)) = (fst (ensure_sheets sh), Inr ())"
proof -
  let ?new = "map (\<lambda>n. new_worksheet n 100 26) (filter (\<lambda>n. n \<notin> set (map ws_title sh)) needed)"
  have a: "snd (ensure_sheets sh) = Inr ()" by (simp add: ensure_sheets_closed)
  have t: "map ws_title ?new = filter (\<lambda>n. n \<notin> set (map ws_title sh)) needed"
    by (rule titles_created)
  have b: "\<exists>created. fst (ensure_sheets sh) = sh @ created \<and>
      map ws_title created =
        filter (\<lambda>n. n \<notin> set (map ws_title sh))
          [''competitors'', ''files'', ''financial_runs'', ''financial_metrics'', ''news'']"
    using t by (intro exI [of _ ?new]) (simp add: ensure_sheets_closed needed_def)
  have c: "{''competitors'', ''files'', ''financial_runs'', ''financial_metrics'', ''news''}
     \<subseteq> set (map ws_title (fst (ensure_sheets sh)))"
    using ensure_sheets_has_needed [of sh] by (simp add: needed_def)
  have d: "distinct (map ws_title sh) \<longrightarrow> distinct (map ws_title (fst (ensure_sheets sh)))"
  proof
    assume "distinct (map ws_title sh)"
    moreover have "distinct (filter (\<lambda>n. n \<notin> set (map ws_title sh)) needed)"
      using distinct_needed by simp
    ultimately have "distinct (map ws_title sh @ map ws_title ?new)"
      unfolding t by auto
    then show "distinct (map ws_title (fst (ensure_sheets sh)))"
      by (simp add: ensure_sheets_closed)
  qed
  from a b c d ensure_sheets_idem show ?thesis by blast
qed

theorem ensure_sheets_idempotent_witness:
  "distinct (map ws_title [new_worksheet ''news'' 100 26]) \<and>
   map ws_title (fst (ensure_sheets [new_worksheet ''news'' 100 26])) =
     [''news'', ''competitors'', ''files'', ''financial_runs'', ''financial_metrics''] \<and>
   distinct (map ws_title (fst (ensure_sheets [new_worksheet ''news'' 100 26]))) \<and>
   ensure_sheets (fst (ensure_sheets [new_worksheet ''news'' 100 26])) =
     (fst (ensure_sheets [new_worksheet ''news'' 100 26]), Inr ())"
proof -
  let ?sh = "[new_worksheet ''news'' 100 26]"
  have d: "distinct (map ws_title ?sh)" by simp
  have t: "map ws_title (fst (ensure_sheets ?sh)) =
     [''news'', ''competitors'', ''files'', ''financial_runs'', ''financial_metrics'']"
    by (simp add: ensure_sheets_def needed_def add_worksheet_def new_worksheet_def)
  from ensure_sheets_idempotent [of ?sh] d t show ?thesis by blast
qed

subsection \<open>Writing a table and reading it back\<close>

lemma map_of_dict_del: "map_of (dict_del k r) h = (if h = k then None else map_of r h)"
  by (induction r) (auto simp: dict_del_def)

lemma dict_get_dict_del: "h \<noteq> k \<Longrightarrow> dict_get (dict_del k r) h d = dict_get r h d"
  by (simp add: dict_get_def map_of_dict_del)

lemma upsert_row_dict_del:
  "k \<notin> set hs \<Longrightarrow> map (\<lambda>h. dict_get (dict_del k r) h d) hs = map (\<lambda>h. dict_get r h d) hs"
  by (induction hs) (auto simp: dict_get_dict_del)

lemma upsert_data_dict_del:
  assumes "k \<notin> set (dict_keys r0)"
  shows "upsert_data r0 (r0 # map (dict_del k) rs) = upsert_data r0 (r0 # rs)"
  using assms by (simp add: upsert_data_def Let_def upsert_row_dict_del comp_def)

lemma update_A1_covered:
  "length old \<le> length ds \<Longrightarrow> (\<forall>r \<in> set old. length r \<le> n) \<Longrightarrow>
   (\<forall>d \<in> set ds. length d = n) \<Longrightarrow> update_A1 ds old = ds"
  by (induction ds old rule: update_A1.induct) (auto simp: overlay_row_def)

lemma cell_Nil: "cell [] i j = None"
  by (simp add: cell_def)

lemma cell_Cons_0: "cell (r # g) 0 j = (if j < length r then Some (r ! j) else None)"
  by (simp add: cell_def)

lemma cell_Cons_Suc: "cell (r # g) (Suc i) j = cell g i j"
  by (simp add: cell_def)

lemma cell_update_A1_inside:
  "i < length ds \<Longrightarrow> j < length (ds ! i) \<Longrightarrow> cell (update_A1 ds old) i j = Some (ds ! i ! j)"
proof (induction ds old arbitrary: i rule: update_A1.induct)
  case (1 old)
  then show ?case by simp
next
  case (2 d ds)
  then show ?case by (cases i) (simp_all add: cell_Cons_0 cell_Cons_Suc)
next
  case (3 d ds r rs)
  then show ?case
    by (cases i) (simp_all add: cell_Cons_0 cell_Cons_Suc overlay_row_def nth_append)
qed

lemma cell_update_A1_outside:
  "length ds \<le> i \<or> (i < length ds \<and> length (ds ! i) \<le> j) \<Longrightarrow>
   cell (update_A1 ds old) i j = cell old i j"
proof (induction ds old arbitrary: i rule: update_A1.induct)
  case (1 old)
  then show ?case by simp
next
  case (2 d ds)
  then show ?case by (cases i) (simp_all add: cell_Cons_0 cell_Cons_Suc cell_Nil)
next
  case (3 d ds r rs)
  then show ?case
    by (cases i) (auto simp: cell_Cons_0 cell_Cons_Suc overlay_row_def nth_append)
qed

lemma worksheet_title: "worksheet sh name = Inr ws \<Longrightarrow> ws_title ws = name"
  by (auto simp: worksheet_def split: option.splits dest: find_Some_iff [THEN iffD1])

lemma worksheet_replace_ws:
  "worksheet sh name = Inr ws \<Longrightarrow> ws_title (f ws) = name \<Longrightarrow>
   worksheet (replace_ws name f sh) name = Inr (f ws)"
  by (induction sh) (auto simp: worksheet_def split: if_splits)

lemma ws_update_refused:
  "\<not> list_all (list_all json_ok) data \<Longrightarrow> ws_update gc sheet_id name data = (gc, Inl InvalidJSONError)"
  by (simp add: ws_update_def)

lemma ws_update_sent:
  assumes "table gc sheet_id name = Inr ws" and "list_all (list_all json_ok) data"
  shows "snd (ws_update gc sheet_id name data) = Inr () \<and>
         table (fst (ws_update gc sheet_id name data)) sheet_id name =
           Inr (ws\<lparr>ws_cells := update_A1 data (ws_cells ws)\<rparr>)"
proof -
  from assms(1) obtain sh where sh: "gc sheet_id = Some sh" and w: "worksheet sh name = Inr ws"
    by (auto simp: table_def open_by_key_def split: option.splits)
  have "worksheet (replace_ws name (\<lambda>w. w\<lparr>ws_cells := update_A1 data (ws_cells w)\<rparr>) sh) name =
          Inr (ws\<lparr>ws_cells := update_A1 data (ws_cells ws)\<rparr>)"
    using w worksheet_title [OF w] by (intro worksheet_replace_ws) simp_all
  with sh assms(2) show ?thesis by (simp add: table_def open_by_key_def ws_update_def)
qed

lemma upsert_sheet_nonempty:
  assumes "table gc sheet_id name = Inr ws"
  shows "upsert_sheet gc sheet_id name (r0 # rs) =
           ws_update gc sheet_id name (upsert_data r0 (r0 # rs))"
  using assms by (auto simp: upsert_sheet_def table_def split: sum.splits)

lemma upsert_data_rect: "\<forall>r \<in> set (upsert_data r0 rows). length r = length (dict_keys r0)"
  by (auto simp: upsert_data_def Let_def)

lemma upsert_data_eq:
  "upsert_data r0 rows =
     dict_keys r0 # map (\<lambda>r. map (\<lambda>h. dict_get r h (PStr '''')) (dict_keys r0)) rows"
  by (simp add: upsert_data_def Let_def)

text \<open>
  C9. For a non-empty sequence of records, a key that the first record does not have is not
  in the header row that is written, and the write is the same as if no later record had
  that key: neither the data sent nor the outcome and the store left behind depend on its
  value.
\<close>

theorem upsert_sheet_drops_later_keys:
  assumes "k \<notin> set (dict_keys r0)"
  shows "k \<notin> set (hd (upsert_data r0 (r0 # rs))) \<and>
         upsert_data r0 (r0 # map (dict_del k) rs) = upsert_data r0 (r0 # rs) \<and>
         upsert_sheet gc sheet_id name (r0 # map (dict_del k) rs) =
           upsert_sheet gc sheet_id name (r0 # rs)"
proof -
  have h: "k \<notin> set (hd (upsert_data r0 (r0 # rs)))"
    using assms by (simp add: upsert_data_eq)
  have d: "upsert_data r0 (r0 # map (dict_del k) rs) = upsert_data r0 (r0 # rs)"
    using assms by (rule upsert_data_dict_del)
  have "upsert_sheet gc sheet_id name (r0 # map (dict_del k) rs) =
          upsert_sheet gc sheet_id name (r0 # rs)"
    by (simp add: upsert_sheet_def d split: sum.splits)
  with h d show ?thesis by simp
qed

text \<open>The same at two records, the second with a key \<open>b\<close> of its own.\<close>

theorem upsert_sheet_drops_later_keys_witness:
  "PStr ''b'' \<notin> set (dict_keys [(PStr ''a'', PStr ''x'')]) \<and>
   upsert_data [(PStr ''a'', PStr ''x'')]
     [[(PStr ''a'', PStr ''x'')], [(PStr ''a'', PStr ''y''), (PStr ''b'', PStr ''z'')]] =
     [[PStr ''a''], [PStr ''x''], [PStr ''y'']] \<and>
   upsert_data [(PStr ''a'', PStr ''x'')]
     [[(PStr ''a'', PStr ''x'')], [(PStr ''a'', PStr ''y'')]] =
   upsert_data [(PStr ''a'', PStr ''x'')]
     [[(PStr ''a'', PStr ''x'')], [(PStr ''a'', PStr ''y''), (PStr ''b'', PStr ''z'')]]"
proof -
  have k: "PStr ''b'' \<notin> set (dict_keys [(PStr ''a'', PStr ''x'')])"
    by (simp add: dict_keys_def)
  have e: "upsert_data [(PStr ''a'', PStr ''x'')]
     [[(PStr ''a'', PStr ''x'')], [(PStr ''a'', PStr ''y''), (PStr ''b'', PStr ''z'')]] =
     [[PStr ''a''], [PStr ''x''], [PStr ''y'']]"
    by (simp add: upsert_data_eq dict_keys_def dict_get_def)
  from upsert_sheet_drops_later_keys [OF k,
      of "[[(PStr ''a'', PStr ''y''), (PStr ''b'', PStr ''z'')]]"]
  have "upsert_data [(PStr ''a'', PStr ''x'')]
     [[(PStr ''a'', PStr ''x'')], [(PStr ''a'', PStr ''y'')]] =
   upsert_data [(PStr ''a'', PStr ''x'')]
     [[(PStr ''a'', PStr ''x'')], [(PStr ''a'', PStr ''y''), (PStr ''b'', PStr ''z'')]]"
    by (simp add: dict_del_def)
  with k e show ?thesis by simp
qed

text \<open>
  C7, amended. For a non-empty sequence of records and an existing table: when every key
  and value can be sent, the write goes through and sets, in place, the rectangle at the
  first cell: the header row is the keys of the first record, row \<open>i + 1\<close> holds record
  \<open>i\<close> under those keys, with the empty string where the record lacks one. Cells below
  or to the right of the rectangle keep what they held; where the old content lay inside
  the rectangle, the table holds just the header and one row per record. When a value
  cannot be sent (NaN), the call raises and the store is left as it was.
\<close>

theorem upsert_sheet_overwrites_rectangle:
  assumes "table gc sheet_id name = Inr ws"
  shows
    "(list_all (list_all json_ok) (upsert_data r0 (r0 # rs)) \<longrightarrow>
       (\<exists>g'. snd (upsert_sheet gc sheet_id name (r0 # rs)) = Inr () \<and>
           table (fst (upsert_sheet gc sheet_id name (r0 # rs))) sheet_id name =
             Inr (ws\<lparr>ws_cells := g'\<rparr>) \<and>
           (\<forall>j < length (dict_keys r0). cell g' 0 j = Some (dict_keys r0 ! j)) \<and>
           (\<forall>i < length (r0 # rs). \<forall>j < length (dict_keys r0).
              cell g' (Suc i) j = Some (dict_get ((r0 # rs) ! i) (dict_keys r0 ! j) (PStr ''''))) \<and>
           (\<forall>i j. Suc (length (r0 # rs)) \<le> i \<or> length (dict_keys r0) \<le> j \<longrightarrow>
              cell g' i j = cell (ws_cells ws) i j) \<and>
           (length (ws_cells ws) \<le> Suc (length (r0 # rs)) \<and>
            (\<forall>r \<in> set (ws_cells ws). length r \<le> length (dict_keys r0)) \<longrightarrow>
              g' = dict_keys r0 #
                   map (\<lambda>r. map (\<lambda>h. dict_get r h (PStr '''')) (dict_keys r0)) (r0 # rs)))) \<and>
     (\<not> list_all (list_all json_ok) (upsert_data r0 (r0 # rs)) \<longrightarrow>
        upsert_sheet gc sheet_id name (r0 # rs) = (gc, Inl InvalidJSONError))"
proof (intro conjI impI)
  assume bad: "\<not> list_all (list_all json_ok) (upsert_data r0 (r0 # rs))"
  show "upsert_sheet gc sheet_id name (r0 # rs) = (gc, Inl InvalidJSONError)"
    using assms bad by (simp add: upsert_sheet_nonempty ws_update_refused)
next
  assume ok: "list_all (list_all json_ok) (upsert_data r0 (r0 # rs))"
  let ?rows = "r0 # rs"
  let ?hs = "dict_keys r0"
  let ?data = "upsert_data r0 ?rows"
  let ?g = "update_A1 ?data (ws_cells ws)"
  have len: "length ?data = Suc (length ?rows)" by (simp add: upsert_data_eq)
  have row_len: "\<And>i. i < length ?data \<Longrightarrow> length (?data ! i) = length ?hs"
    using upsert_data_rect [of r0 ?rows] by (metis nth_mem)
  have up: "upsert_sheet gc sheet_id name ?rows = ws_update gc sheet_id name ?data"
    using assms by (rule upsert_sheet_nonempty)
  from ws_update_sent [OF assms ok]
  have sent: "snd (upsert_sheet gc sheet_id name ?rows) = Inr ()"
    and tb: "table (fst (upsert_sheet gc sheet_id name ?rows)) sheet_id name =
              Inr (ws\<lparr>ws_cells := ?g\<rparr>)"
    unfolding up by simp_all
  have hdr: "\<forall>j < length ?hs. cell ?g 0 j = Some (?hs ! j)"
  proof (intro allI impI)
    fix j assume j: "j < length ?hs"
    have "cell ?g 0 j = Some (?data ! 0 ! j)"
      using j row_len [of 0] len by (intro cell_update_A1_inside) simp_all
    then show "cell ?g 0 j = Some (?hs ! j)" by (simp add: upsert_data_eq)
  qed
  have body: "\<forall>i < length ?rows. \<forall>j < length ?hs.
      cell ?g (Suc i) j = Some (dict_get (?rows ! i) (?hs ! j) (PStr ''''))"
  proof (intro allI impI)
    fix i j assume i: "i < length ?rows" and j: "j < length ?hs"
    have "cell ?g (Suc i) j = Some (?data ! Suc i ! j)"
      using i j row_len [of "Suc i"] len by (intro cell_update_A1_inside) simp_all
    moreover have "?data ! Suc i ! j = dict_get (?rows ! i) (?hs ! j) (PStr '''')"
      using i j by (simp add: upsert_data_eq del: nth_Cons_Suc length_Cons)
         (simp add: upsert_data_eq nth_Cons')
    ultimately show "cell ?g (Suc i) j = Some (dict_get (?rows ! i) (?hs ! j) (PStr ''''))"
      by simp
  qed
  have out: "\<forall>i j. Suc (length ?rows) \<le> i \<or> length ?hs \<le> j \<longrightarrow>
      cell ?g i j = cell (ws_cells ws) i j"
  proof (intro allI impI)
    fix i j assume a: "Suc (length ?rows) \<le> i \<or> length ?hs \<le> j"
    have "length ?data \<le> i \<or> (i < length ?data \<and> length (?data ! i) \<le> j)"
    proof (cases "i < length ?data")
      case True
      with a len row_len [of i] show ?thesis by auto
    next
      case False
      then show ?thesis by simp
    qed
    then show "cell ?g i j = cell (ws_cells ws) i j" by (rule cell_update_A1_outside)
  qed
  have full: "length (ws_cells ws) \<le> Suc (length ?rows) \<and>
      (\<forall>r \<in> set (ws_cells ws). length r \<le> length ?hs) \<longrightarrow>
      ?g = ?hs # map (\<lambda>r. map (\<lambda>h. dict_get r h (PStr '''')) ?hs) ?rows"
  proof
    assume a: "length (ws_cells ws) \<le> Suc (length ?rows) \<and>
      (\<forall>r \<in> set (ws_cells ws). length r \<le> length ?hs)"
    have "?g = ?data"
      using a len upsert_data_rect [of r0 ?rows]
      by (intro update_A1_covered [where n = "length ?hs"]) simp_all
    then show "?g = ?hs # map (\<lambda>r. map (\<lambda>h. dict_get r h (PStr '''')) ?hs) ?rows"
      by (simp add: upsert_data_eq)
  qed
  from sent tb hdr body out full
  show "\<exists>g'. snd (upsert_sheet gc sheet_id name (r0 # rs)) = Inr () \<and>
           table (fst (upsert_sheet gc sheet_id name (r0 # rs))) sheet_id name =
             Inr (ws\<lparr>ws_cells := g'\<rparr>) \<and>
           (\<forall>j < length (dict_keys r0). cell g' 0 j = Some (dict_keys r0 ! j)) \<and>
           (\<forall>i < length (r0 # rs). \<forall>j < length (dict_keys r0).
              cell g' (Suc i) j = Some (dict_get ((r0 # rs) ! i) (dict_keys r0 ! j) (PStr ''''))) \<and>
           (\<forall>i j. Suc (length (r0 # rs)) \<le> i \<or> length (dict_keys r0) \<le> j \<longrightarrow>
              cell g' i j = cell (ws_cells ws) i j) \<and>
           (length (ws_cells ws) \<le> Suc (length (r0 # rs)) \<and>
            (\<forall>r \<in> set (ws_cells ws). length r \<le> length (dict_keys r0)) \<longrightarrow>
              g' = dict_keys r0 #
                   map (\<lambda>r. map (\<lambda>h. dict_get r h (PStr '''')) (dict_keys r0)) (r0 # rs))"
    by blast
qed

text \<open>
  C7, as stated, fails where the table held more than the write covers: the old third row
  is still there after one record is written over a table of three rows, and it reads
  back as a second record. It fails as well for a record with NaN: the call raises and
  the table keeps its three rows.
\<close>

theorem upsert_sheet_full_overwrite_counterexample:
  "\<forall>x. table (fst (upsert_sheet
      [''s'' \<mapsto> [\<lparr>ws_title = ''t'', ws_rows = 100, ws_cols = 26,
         ws_cells = [[PStr ''a''], [PStr ''p''], [PStr ''q'']]\<rparr>]]
      ''s'' ''t'' [[(PStr ''a'', PStr ''z'')]])) ''s'' ''t'' =
     Inr \<lparr>ws_title = ''t'', ws_rows = 100, ws_cols = 26,
         ws_cells = [[PStr ''a''], [PStr ''z''], [PStr ''q'']]\<rparr> \<and>
   read_sheet x (fst (upsert_sheet
      [''s'' \<mapsto> [\<lparr>ws_title = ''t'', ws_rows = 100, ws_cols = 26,
         ws_cells = [[PStr ''a''], [PStr ''p''], [PStr ''q'']]\<rparr>]]
      ''s'' ''t'' [[(PStr ''a'', PStr ''z'')]])) ''s'' ''t'' =
     Inr [[(PStr ''a'', PStr ''z'')], [(PStr ''a'', PStr ''q'')]] \<and>
   snd (upsert_sheet
      [''s'' \<mapsto> [\<lparr>ws_title = ''t'', ws_rows = 100, ws_cols = 26,
         ws_cells = [[PStr ''a''], [PStr ''p''], [PStr ''q'']]\<rparr>]]
      ''s'' ''t'' [[(PStr ''a'', PNaN)]]) = Inl InvalidJSONError \<and>
   table (fst (upsert_sheet
      [''s'' \<mapsto> [\<lparr>ws_title = ''t'', ws_rows = 100, ws_cols = 26,
         ws_cells = [[PStr ''a''], [PStr ''p''], [PStr ''q'']]\<rparr>]]
      ''s'' ''t'' [[(PStr ''a'', PNaN)]])) ''s'' ''t'' =
     Inr \<lparr>ws_title = ''t'', ws_rows = 100, ws_cols = 26,
         ws_cells = [[PStr ''a''], [PStr ''p''], [PStr ''q'']]\<rparr>"
  by (intro allI) code_simp

text \<open>
  The amended statement at that table: the header and the record are in place and the cell
  below them keeps the old value; a record with NaN is refused and the table untouched.
\<close>

theorem upsert_sheet_overwrites_rectangle_witness:
  "table [''s'' \<mapsto> [\<lparr>ws_title = ''t'', ws_rows = 100, ws_cols = 26,
         ws_cells = [[PStr ''a''], [PStr ''p''], [PStr ''q'']]\<rparr>]] ''s'' ''t'' =
     Inr \<lparr>ws_title = ''t'', ws_rows = 100, ws_cols = 26,
         ws_cells = [[PStr ''a''], [PStr ''p''], [PStr ''q'']]\<rparr> \<and>
   (\<exists>g'. table (fst (upsert_sheet
        [''s'' \<mapsto> [\<lparr>ws_title = ''t'', ws_rows = 100, ws_cols = 26,
           ws_cells = [[PStr ''a''], [PStr ''p''], [PStr ''q'']]\<rparr>]]
        ''s'' ''t'' [[(PStr ''a'', PStr ''z'')]])) ''s'' ''t'' =
       Inr \<lparr>ws_title = ''t'', ws_rows = 100, ws_cols = 26, ws_cells = g'\<rparr> \<and>
      cell g' 0 0 = Some (PStr ''a'') \<and>
      cell g' 1 0 = Some (PStr ''z'') \<and>
      cell g' 2 0 = Some (PStr ''q'')) \<and>
   upsert_sheet
        [''s'' \<mapsto> [\<lparr>ws_title = ''t'', ws_rows = 100, ws_cols = 26,
           ws_cells = [[PStr ''a''], [PStr ''p''], [PStr ''q'']]\<rparr>]]
        ''s'' ''t'' [[(PStr ''a'', PNaN)]] =
     ([''s'' \<mapsto> [\<lparr>ws_title = ''t'', ws_rows = 100, ws_cols = 26,
           ws_cells = [[PStr ''a''], [PStr ''p''], [PStr ''q'']]\<rparr>]],
      Inl InvalidJSONError)"
proof -
  let ?ws = "\<lparr>ws_title = ''t'', ws_rows = 100, ws_cols = 26,
         ws_cells = [[PStr ''a''], [PStr ''p''], [PStr ''q'']]\<rparr>"
  let ?gc = "[''s'' \<mapsto> [?ws]]"
  let ?r0 = "[(PStr ''a'', PStr ''z'')]"
  let ?r1 = "[(PStr ''a'', PNaN)]"
  have t: "table ?gc ''s'' ''t'' = Inr ?ws"
    by (simp add: table_def open_by_key_def worksheet_def)
  have ok: "list_all (list_all json_ok) (upsert_data ?r0 [?r0])"
    by (simp add: upsert_data_def dict_keys_def dict_get_def)
  have bad: "\<not> list_all (list_all json_ok) (upsert_data ?r1 [?r1])"
    by (simp add: upsert_data_def dict_keys_def dict_get_def)
  from upsert_sheet_overwrites_rectangle [OF t, of ?r0 "[]"] ok
  obtain g' where
    tb: "table (fst (upsert_sheet ?gc ''s'' ''t'' [?r0])) ''s'' ''t'' = Inr (?ws\<lparr>ws_cells := g'\<rparr>)"
    and hdr: "\<forall>j < length (dict_keys ?r0). cell g' 0 j = Some (dict_keys ?r0 ! j)"
    and body: "\<forall>i < length [?r0]. \<forall>j < length (dict_keys ?r0).
        cell g' (Suc i) j = Some (dict_get ([?r0] ! i) (dict_keys ?r0 ! j) (PStr ''''))"
    and out: "\<forall>i j. Suc (length [?r0]) \<le> i \<or> length (dict_keys ?r0) \<le> j \<longrightarrow>
        cell g' i j = cell (ws_cells ?ws) i j"
    by blast
  from hdr have c0: "cell g' 0 0 = Some (PStr ''a'')"
    by (simp add: dict_keys_def)
  from body have c1: "cell g' 1 0 = Some (PStr ''z'')"
    by (simp add: dict_keys_def dict_get_def)
  from out have "cell g' 2 0 = cell (ws_cells ?ws) 2 0"
    by simp
  then have c2: "cell g' 2 0 = Some (PStr ''q'')"
    by (simp add: cell_def)
  from upsert_sheet_overwrites_rectangle [OF t, of ?r1 "[]"] bad
  have r: "upsert_sheet ?gc ''s'' ''t'' [?r1] = (?gc, Inl InvalidJSONError)"
    by blast
  from t tb c0 c1 c2 r show ?thesis by auto
qed

lemma blanks_replicate: "(\<forall>s \<in> set ys. s = []) \<Longrightarrow> ys = replicate (length ys) []"
  by (induction ys) auto

lemma trim_row_pad: "trim_row r @ replicate (length r - length (trim_row r)) [] = r"
proof -
  let ?P = "\<lambda>s::string. s = []"
  let ?t = "takeWhile ?P (rev r)"
  let ?d = "dropWhile ?P (rev r)"
  have "\<forall>s \<in> set ?t. s = []" by (auto dest: set_takeWhileD)
  then have t: "?t = replicate (length ?t) []" by (rule blanks_replicate)
  have "rev ?d @ rev ?t = rev (?t @ ?d)" by (simp only: rev_append)
  also have "\<dots> = rev (rev r)" by (simp only: takeWhile_dropWhile_id)
  also have "\<dots> = r" by simp
  finally have r: "r = rev ?d @ rev ?t" by (rule sym)
  have "rev ?t = replicate (length ?t) []" using t by (metis rev_replicate)
  with r have r': "r = trim_row r @ replicate (length ?t) []" by (simp add: trim_row_def)
  have "length r = length (trim_row r) + length ?t"
    using r' by (metis length_append length_replicate)
  then have "length ?t = length r - length (trim_row r)" by simp
  with r' show ?thesis by simp
qed

lemma length_trim_row: "length (trim_row r) \<le> length r"
  by (simp add: trim_row_def length_dropWhile_le [of _ "rev r", simplified])

lemma trim_row_id: "r \<noteq> [] \<Longrightarrow> last r \<noteq> [] \<Longrightarrow> trim_row r = r"
  by (cases r rule: rev_cases) (simp_all add: trim_row_def)

lemma trim_rows_id: "g \<noteq> [] \<Longrightarrow> last g \<noteq> [] \<Longrightarrow> trim_rows g = g"
  by (cases g rule: rev_cases) (simp_all add: trim_rows_def)

lemma trim_row_nonempty: "\<exists>s \<in> set r. s \<noteq> [] \<Longrightarrow> trim_row r \<noteq> []"
proof -
  assume "\<exists>s \<in> set r. s \<noteq> []"
  then have "\<exists>s \<in> set (rev r). \<not> (s = [])" by simp
  then have "dropWhile (\<lambda>s. s = []) (rev r) \<noteq> []"
    by (simp add: dropWhile_eq_Nil_conv)
  then show ?thesis by (simp add: trim_row_def)
qed

lemma width_bound: "(\<forall>r \<in> set g. length r \<le> n) \<Longrightarrow> foldr (\<lambda>r m. max (length r) m) g 0 \<le> n"
  by (induction g) auto

lemma width_reached: "r \<in> set g \<Longrightarrow> length r \<le> foldr (\<lambda>r m. max (length r) m) g 0"
  by (induction g) auto

lemma fill_gaps_width:
  assumes "\<forall>r \<in> set g. length r \<le> n" and "r0 \<in> set g" and "length r0 = n"
  shows "fill_gaps g = map (\<lambda>r. r @ replicate (n - length r) []) g"
proof -
  have "foldr (\<lambda>r m. max (length r) m) g 0 = n"
    using width_bound [OF assms(1)] width_reached [OF assms(2)] assms(3) by simp
  then show ?thesis by (simp add: fill_gaps_def Let_def)
qed

text \<open>A rectangle of texts whose first row ends with a text and whose last row holds one comes back whole.\<close>

lemma values_of_rectangle:
  fixes hdr :: "string list" and body :: "string list list"
  assumes rect: "\<forall>r \<in> set (hdr # body). length r = n"
    and hdr: "hdr \<noteq> []" "last hdr \<noteq> []"
    and lastrow: "\<exists>s \<in> set (last (hdr # body)). s \<noteq> []"
  shows "fill_gaps (trim_rows (map trim_row (hdr # body))) = hdr # body"
proof -
  let ?T = "hdr # body"
  let ?G = "map trim_row ?T"
  have h: "trim_row hdr = hdr" using hdr by (rule trim_row_id)
  have "last ?G = trim_row (last ?T)" by (simp add: last_map)
  then have "last ?G \<noteq> []" using trim_row_nonempty [OF lastrow] by simp
  then have tr: "trim_rows ?G = ?G" by (intro trim_rows_id) simp_all
  have le: "\<forall>r \<in> set ?G. length r \<le> n"
  proof
    fix r assume "r \<in> set ?G"
    then obtain t where t: "t \<in> set ?T" and r: "r = trim_row t" by auto
    from rect t have "length t = n" by blast
    with r show "length r \<le> n" using length_trim_row [of t] by simp
  qed
  have hin: "hdr \<in> set ?G" using h by (metis list.set_intros(1) list.simps(9))
  have hn: "length hdr = n" using rect by simp
  have "fill_gaps ?G = map (\<lambda>r. r @ replicate (n - length r) []) ?G"
    using le hin hn by (rule fill_gaps_width)
  also have "\<dots> = map (\<lambda>t. trim_row t @ replicate (n - length (trim_row t)) []) ?T"
    by (simp add: comp_def)
  also have "\<dots> = map (\<lambda>t. t) ?T"
  proof (rule map_cong [OF refl])
    fix t assume "t \<in> set ?T"
    with rect have "length t = n" by blast
    then show "trim_row t @ replicate (n - length (trim_row t)) [] = t"
      using trim_row_pad [of t] by simp
  qed
  finally show ?thesis using tr by simp
qed

lemma dict_set_fresh: "k \<notin> fst ` set d \<Longrightarrow> dict_set k v d = d @ [(k, v)]"
  by (induction d) auto

lemma dict_of_acc:
  "distinct (map fst (acc @ ps)) \<Longrightarrow> foldl (\<lambda>d (k, v). dict_set k v d) acc ps = acc @ ps"
proof (induction ps arbitrary: acc)
  case Nil
  then show ?case by simp
next
  case (Cons p ps)
  obtain k v where p: "p = (k, v)" by (cases p)
  from Cons.prems p have "k \<notin> fst ` set acc" by auto
  then have s: "dict_set k v acc = acc @ [(k, v)]" by (rule dict_set_fresh)
  from Cons.prems p have "distinct (map fst ((acc @ [(k, v)]) @ ps))" by simp
  from Cons.IH [OF this] s p show ?case by simp
qed

lemma dict_of_distinct: "distinct (map fst ps) \<Longrightarrow> dict_of ps = ps"
  using dict_of_acc [of "[]" ps] by (simp add: dict_of_def)

lemma zip_keys_row:
  "zip hs (map f hs) = map (\<lambda>h. (h, f h)) hs"
  by (induction hs) auto

lemma map_of_keyed: "map_of (map (\<lambda>h. (h, f h)) hs) k = (if k \<in> set hs then Some (f k) else None)"
  by (induction hs) auto

lemma text_key_PStr: "text_key k \<Longrightarrow> PStr (cell_text x k) = k \<and> cell_text x k \<noteq> [] \<and> json_ok k"
  by (cases k) (simp_all add: text_key_def cell_text_def)

lemma read_sheet_table:
  "read_sheet x gc sheet_id name =
     (case table gc sheet_id name of Inl e \<Rightarrow> Inl e | Inr ws \<Rightarrow> get_all_records x ws)"
  by (simp add: read_sheet_def table_def split: sum.splits)

lemma get_all_records_data:
  assumes wf: "wf_dict r0"
    and cells: "ws_cells ws = upsert_data r0 rows"
    and rows: "rows \<noteq> []"
    and keys: "\<forall>k \<in> set (dict_keys r0). text_key k"
    and vals: "\<forall>r \<in> set rows. \<forall>h \<in> set (dict_keys r0). reads_back x (dict_get r h (PStr ''''))"
    and lastrow: "\<exists>h \<in> set (dict_keys r0). cell_text x (dict_get (last rows) h (PStr '''')) \<noteq> []"
  shows "get_all_records x ws =
           Inr (map (\<lambda>r. map (\<lambda>h. (h, dict_get r h (PStr ''''))) (dict_keys r0)) rows)"
proof -
  let ?hs = "dict_keys r0"
  let ?row = "\<lambda>r. map (\<lambda>h. dict_get r h (PStr '''')) ?hs"
  let ?hdr = "map (cell_text x) ?hs"
  let ?body = "map (\<lambda>r. map (cell_text x) (?row r)) rows"
  have texts: "map (\<lambda>r. map (cell_text x) r) (ws_cells ws) = ?hdr # ?body"
    by (simp add: cells upsert_data_eq comp_def)
  from lastrow have hs_ne: "?hs \<noteq> []" by auto
  have hdr_ne: "?hdr \<noteq> []" using hs_ne by simp
  have "last ?hs \<in> set ?hs" using hs_ne by simp
  with keys have "cell_text x (last ?hs) \<noteq> []" using text_key_PStr by blast
  then have hdr_last: "last ?hdr \<noteq> []" using hs_ne by (simp add: last_map)
  have rect: "\<forall>r \<in> set (?hdr # ?body). length r = length ?hs" by auto
  have body_ne: "?body \<noteq> []" using rows by simp
  have "last (?hdr # ?body) = map (cell_text x) (?row (last rows))"
    using rows by (simp add: last_map)
  moreover from lastrow have "\<exists>s \<in> set (map (cell_text x) (?row (last rows))). s \<noteq> []"
    by auto
  ultimately have lr: "\<exists>s \<in> set (last (?hdr # ?body)). s \<noteq> []" by simp
  have "map (\<lambda>r. trim_row (map (cell_text x) r)) (ws_cells ws) =
          map trim_row (map (\<lambda>r. map (cell_text x) r) (ws_cells ws))"
    by (simp add: comp_def)
  then have "map (\<lambda>r. trim_row (map (cell_text x) r)) (ws_cells ws) = map trim_row (?hdr # ?body)"
    by (simp only: texts)
  then have "get_all_values x ws = fill_gaps (trim_rows (map trim_row (?hdr # ?body)))"
    by (simp only: get_all_values_def)
  also have "\<dots> = ?hdr # ?body"
    using rect hdr_ne hdr_last lr by (rule values_of_rectangle)
  finally have gv: "get_all_values x ws = ?hdr # ?body" .
  have hk: "map PStr ?hdr = ?hs"
  proof -
    have "map PStr ?hdr = map (\<lambda>k. PStr (cell_text x k)) ?hs" by simp
    also have "\<dots> = map (\<lambda>k. k) ?hs"
      using keys text_key_PStr by (intro map_cong [OF refl]) blast
    finally show ?thesis by simp
  qed
  have dhs: "distinct ?hs" using wf by (simp add: wf_dict_def dict_keys_def)
  have dist: "distinct ?hdr"
    using dhs hk by (metis distinct_map)
  have rec: "\<And>r. r \<in> set rows \<Longrightarrow>
      dict_of (zip (map PStr ?hdr) (map (numericise x) (map (cell_text x) (?row r)))) =
      map (\<lambda>h. (h, dict_get r h (PStr ''''))) ?hs"
  proof -
    fix r assume r: "r \<in> set rows"
    have "map (numericise x) (map (cell_text x) (?row r)) =
            map (\<lambda>h. numericise x (cell_text x (dict_get r h (PStr '''')))) ?hs"
      by (simp add: comp_def)
    also have "\<dots> = map (\<lambda>h. dict_get r h (PStr '''')) ?hs"
      using vals r by (intro map_cong [OF refl]) (auto simp: reads_back_def)
    finally have v: "map (numericise x) (map (cell_text x) (?row r)) = ?row r" .
    have "distinct (map fst (map (\<lambda>h. (h, dict_get r h (PStr ''''))) ?hs))"
      using dhs by (simp add: comp_def)
    then show "dict_of (zip (map PStr ?hdr) (map (numericise x) (map (cell_text x) (?row r)))) =
      map (\<lambda>h. (h, dict_get r h (PStr ''''))) ?hs"
      unfolding v hk by (simp add: zip_keys_row dict_of_distinct)
  qed
  have "get_all_records x ws =
      Inr (map (\<lambda>row. dict_of (zip (map PStr ?hdr) (map (numericise x) row))) ?body)"
    using gv dist by (simp add: get_all_records_def)
  also have "map (\<lambda>row. dict_of (zip (map PStr ?hdr) (map (numericise x) row))) ?body =
      map (\<lambda>r. dict_of (zip (map PStr ?hdr) (map (numericise x) (map (cell_text x) (?row r))))) rows"
    by (simp add: comp_def)
  also have "\<dots> = map (\<lambda>r. map (\<lambda>h. (h, dict_get r h (PStr ''''))) ?hs) rows"
    using rec by (intro map_cong [OF refl]) blast
  finally show ?thesis .
qed

lemma upsert_data_sendable:
  assumes keys: "\<forall>k \<in> set (dict_keys r0). text_key k"
    and vals: "\<forall>r \<in> set rows. \<forall>h \<in> set (dict_keys r0). reads_back x (dict_get r h (PStr ''''))"
  shows "list_all (list_all json_ok) (upsert_data r0 rows)"
proof -
  have "list_all json_ok (dict_keys r0)"
    using keys text_key_PStr by (auto simp: list_all_iff)
  moreover have "\<forall>r \<in> set rows. list_all json_ok (map (\<lambda>h. dict_get r h (PStr '''')) (dict_keys r0))"
    using vals by (auto simp: list_all_iff reads_back_def)
  ultimately show ?thesis by (simp add: upsert_data_eq list_all_iff)
qed

lemma plain_text_reads_back: "plain_text s \<Longrightarrow> reads_back x (PStr s)"
  by (simp add: reads_back_def cell_text_def numericise_def)

text \<open>
  C1, amended. Take a non-empty sequence of records whose first record has keys that are
  texts, none empty, where every value written (the empty string for a missing key
  included) reads back as itself, that is, can be sent and is numericised to itself: a
  text that is not a number, not a boolean, not NaN; and where the last record has a field
  that is not blank. Written to an existing table whose old content lay inside the written
  rectangle, the write goes through, and reading the table gives one record per written
  record, each with exactly the keys of the first written record: a field holds the
  written value, or the empty string where the record lacked that key, and a field that
  the first record lacks is absent from every record read back.
\<close>

theorem write_then_read_roundtrip:
  assumes tbl: "table gc sheet_id name = Inr ws"
    and wf: "wf_dict r0"
    and nrows: "length (ws_cells ws) \<le> Suc (length (r0 # rs))"
    and ncols: "\<forall>r \<in> set (ws_cells ws). length r \<le> length (dict_keys r0)"
    and keys: "\<forall>k \<in> set (dict_keys r0). text_key k"
    and vals: "\<forall>r \<in> set (r0 # rs). \<forall>h \<in> set (dict_keys r0). reads_back x (dict_get r h (PStr ''''))"
    and lastrow: "\<exists>h \<in> set (dict_keys r0). cell_text x (dict_get (last (r0 # rs)) h (PStr '''')) \<noteq> []"
  shows "\<exists>recs. snd (upsert_sheet gc sheet_id name (r0 # rs)) = Inr () \<and>
     read_sheet x (fst (upsert_sheet gc sheet_id name (r0 # rs))) sheet_id name = Inr recs \<and>
     recs = map (\<lambda>r. map (\<lambda>h. (h, dict_get r h (PStr ''''))) (dict_keys r0)) (r0 # rs) \<and>
     length recs = length (r0 # rs) \<and>
     (\<forall>i < length (r0 # rs).
        dict_keys (recs ! i) = dict_keys r0 \<and>
        (\<forall>k v. k \<in> set (dict_keys r0) \<and> map_of ((r0 # rs) ! i) k = Some v \<longrightarrow>
           map_of (recs ! i) k = Some v) \<and>
        (\<forall>k. k \<in> set (dict_keys r0) \<and> map_of ((r0 # rs) ! i) k = None \<longrightarrow>
           map_of (recs ! i) k = Some (PStr '''')) \<and>
        (\<forall>k. k \<notin> set (dict_keys r0) \<longrightarrow> map_of (recs ! i) k = None))"
proof -
  let ?rows = "r0 # rs"
  let ?hs = "dict_keys r0"
  let ?data = "upsert_data r0 ?rows"
  let ?recs = "map (\<lambda>r. map (\<lambda>h. (h, dict_get r h (PStr ''''))) ?hs) ?rows"
  have len: "length ?data = Suc (length ?rows)" by (simp add: upsert_data_eq)
  have cov: "update_A1 ?data (ws_cells ws) = ?data"
    using nrows ncols len upsert_data_rect [of r0 ?rows]
    by (intro update_A1_covered [where n = "length ?hs"]) simp_all
  have ok: "list_all (list_all json_ok) ?data"
    using keys vals by (rule upsert_data_sendable)
  have up: "upsert_sheet gc sheet_id name ?rows = ws_update gc sheet_id name ?data"
    using tbl by (rule upsert_sheet_nonempty)
  from ws_update_sent [OF tbl ok]
  have sent: "snd (upsert_sheet gc sheet_id name ?rows) = Inr ()"
    and tb: "table (fst (upsert_sheet gc sheet_id name ?rows)) sheet_id name =
              Inr (ws\<lparr>ws_cells := ?data\<rparr>)"
    unfolding up using cov by simp_all
  have "get_all_records x (ws\<lparr>ws_cells := ?data\<rparr>) = Inr ?recs"
    using wf keys vals lastrow by (intro get_all_records_data) simp_all
  with tb have rd: "read_sheet x (fst (upsert_sheet gc sheet_id name ?rows)) sheet_id name = Inr ?recs"
    by (simp add: read_sheet_table)
  have per: "\<forall>i < length ?rows.
        dict_keys (?recs ! i) = ?hs \<and>
        (\<forall>k v. k \<in> set ?hs \<and> map_of (?rows ! i) k = Some v \<longrightarrow> map_of (?recs ! i) k = Some v) \<and>
        (\<forall>k. k \<in> set ?hs \<and> map_of (?rows ! i) k = None \<longrightarrow>
           map_of (?recs ! i) k = Some (PStr '''')) \<and>
        (\<forall>k. k \<notin> set ?hs \<longrightarrow> map_of (?recs ! i) k = None)"
  proof (intro allI impI)
    fix i assume i: "i < length ?rows"
    then have r: "?recs ! i = map (\<lambda>h. (h, dict_get (?rows ! i) h (PStr ''''))) ?hs"
      by (rule nth_map)
    show "dict_keys (?recs ! i) = ?hs \<and>
        (\<forall>k v. k \<in> set ?hs \<and> map_of (?rows ! i) k = Some v \<longrightarrow> map_of (?recs ! i) k = Some v) \<and>
        (\<forall>k. k \<in> set ?hs \<and> map_of (?rows ! i) k = None \<longrightarrow>
           map_of (?recs ! i) k = Some (PStr '''')) \<and>
        (\<forall>k. k \<notin> set ?hs \<longrightarrow> map_of (?recs ! i) k = None)"
      unfolding r by (simp add: map_of_keyed dict_get_def) (simp add: dict_keys_def comp_def)
  qed
  from sent rd per show ?thesis by (intro exI [of _ ?recs]) simp
qed

text \<open>
  C1, as stated, fails, first in its second half: a field that only a later record has is
  not in the header row, so it is absent from the record read back, not present with the
  empty string. The further lines are the other ways in which a record does not read back
  as written, each on a new table: a boolean reads back as the text \<open>TRUE\<close>, a text of
  digits as an integer, a last record that is blank is not read back, nor is a blank field
  under an empty key, and a record with NaN is not written at all. In the last line the
  table held three rows and the old third row reads back after the written record.
\<close>

theorem write_then_read_later_field_counterexample:
  "\<forall>x.
   read_sheet x (fst (upsert_sheet [''s'' \<mapsto> [new_worksheet ''t'' 100 26]] ''s'' ''t''
      [[(PStr ''a'', PStr ''x'')], [(PStr ''a'', PStr ''y''), (PStr ''b'', PStr ''z'')]])) ''s'' ''t'' =
     Inr [[(PStr ''a'', PStr ''x'')], [(PStr ''a'', PStr ''y'')]] \<and>
   map_of [(PStr ''a'', PStr ''y'')] (PStr ''b'') = None \<and>
   read_sheet x (fst (upsert_sheet [''s'' \<mapsto> [new_worksheet ''t'' 100 26]] ''s'' ''t''
      [[(PStr ''a'', PBool True)]])) ''s'' ''t'' =
     Inr [[(PStr ''a'', PStr ''TRUE'')]] \<and>
   read_sheet x (fst (upsert_sheet [''s'' \<mapsto> [new_worksheet ''t'' 100 26]] ''s'' ''t''
      [[(PStr ''a'', PStr ''12'')]])) ''s'' ''t'' =
     Inr [[(PStr ''a'', PInt 12)]] \<and>
   read_sheet x (fst (upsert_sheet [''s'' \<mapsto> [new_worksheet ''t'' 100 26]] ''s'' ''t''
      [[(PStr ''a'', PStr ''x'')], [(PStr ''a'', PStr '''')]])) ''s'' ''t'' =
     Inr [[(PStr ''a'', PStr ''x'')]] \<and>
   read_sheet x (fst (upsert_sheet [''s'' \<mapsto> [new_worksheet ''t'' 100 26]] ''s'' ''t''
      [[(PStr ''a'', PStr ''x''), (PStr '''', PStr '''')]])) ''s'' ''t'' =
     Inr [[(PStr ''a'', PStr ''x'')]] \<and>
   snd (upsert_sheet [''s'' \<mapsto> [new_worksheet ''t'' 100 26]] ''s'' ''t''
      [[(PStr ''a'', PNaN)]]) = Inl InvalidJSONError \<and>
   read_sheet x (fst (upsert_sheet [''s'' \<mapsto> [new_worksheet ''t'' 100 26]] ''s'' ''t''
      [[(PStr ''a'', PNaN)]])) ''s'' ''t'' = Inr [] \<and>
   read_sheet x (fst (upsert_sheet
      [''s'' \<mapsto> [\<lparr>ws_title = ''t'', ws_rows = 100, ws_cols = 26,
         ws_cells = [[PStr ''a''], [PStr ''p''], [PStr ''q'']]\<rparr>]]
      ''s'' ''t'' [[(PStr ''a'', PStr ''z'')]])) ''s'' ''t'' =
     Inr [[(PStr ''a'', PStr ''z'')], [(PStr ''a'', PStr ''q'')]]"
  by (intro allI) code_simp

text \<open>
  The round trip at a new table and two records of plain texts, the second without the
  field \<open>b\<close> of the first: it reads back with the empty string.
\<close>

theorem write_then_read_roundtrip_witness:
  "\<forall>x. table [''s'' \<mapsto> [new_worksheet ''t'' 100 26]] ''s'' ''t'' = Inr (new_worksheet ''t'' 100 26) \<and>
   wf_dict [(PStr ''a'', PStr ''x''), (PStr ''b'', PStr ''y'')] \<and>
   reads_back x (PStr ''x'') \<and> reads_back x (PStr ''y'') \<and> reads_back x (PStr ''z'') \<and>
   reads_back x (PStr '''') \<and>
   read_sheet x (fst (upsert_sheet
      [''s'' \<mapsto> [new_worksheet ''t'' 100 26]]
      ''s'' ''t''
      [[(PStr ''a'', PStr ''x''), (PStr ''b'', PStr ''y'')], [(PStr ''a'', PStr ''z'')]])) ''s'' ''t'' =
     Inr [[(PStr ''a'', PStr ''x''), (PStr ''b'', PStr ''y'')],
          [(PStr ''a'', PStr ''z''), (PStr ''b'', PStr '''')]]"
proof
  fix x
  let ?ws = "new_worksheet ''t'' 100 26"
  let ?gc = "[''s'' \<mapsto> [?ws]]"
  let ?r0 = "[(PStr ''a'', PStr ''x''), (PStr ''b'', PStr ''y'')]"
  let ?rs = "[[(PStr ''a'', PStr ''z'')]]"
  have t: "table ?gc ''s'' ''t'' = Inr ?ws"
    by (simp add: table_def open_by_key_def worksheet_def new_worksheet_def)
  have wf: "wf_dict ?r0" by (simp add: wf_dict_def)
  have n: "length (ws_cells ?ws) \<le> Suc (length (?r0 # ?rs))"
    by (simp add: new_worksheet_def)
  have c: "\<forall>r \<in> set (ws_cells ?ws). length r \<le> length (dict_keys ?r0)"
    by (simp add: new_worksheet_def)
  have k: "\<forall>k \<in> set (dict_keys ?r0). text_key k"
    by (simp add: dict_keys_def text_key_def)
  have px: "plain_text ''x''" and py: "plain_text ''y''" and pz: "plain_text ''z''"
    and pe: "plain_text ''''"
    by code_simp+
  note rb = plain_text_reads_back [OF px, of x] plain_text_reads_back [OF py, of x]
    plain_text_reads_back [OF pz, of x] plain_text_reads_back [OF pe, of x]
  have v: "\<forall>r \<in> set (?r0 # ?rs). \<forall>h \<in> set (dict_keys ?r0). reads_back x (dict_get r h (PStr ''''))"
    using rb by (simp add: dict_keys_def dict_get_def)
  have l: "\<exists>h \<in> set (dict_keys ?r0). cell_text x (dict_get (last (?r0 # ?rs)) h (PStr '''')) \<noteq> []"
    by (simp add: dict_keys_def dict_get_def cell_text_def)
  from write_then_read_roundtrip [OF t wf n c k v l]
  have "read_sheet x (fst (upsert_sheet ?gc ''s'' ''t'' (?r0 # ?rs))) ''s'' ''t'' =
          Inr (map (\<lambda>r. map (\<lambda>h. (h, dict_get r h (PStr ''''))) (dict_keys ?r0)) (?r0 # ?rs))"
    by blast
  then have "read_sheet x (fst (upsert_sheet ?gc ''s'' ''t'' (?r0 # ?rs))) ''s'' ''t'' =
          Inr [[(PStr ''a'', PStr ''x''), (PStr ''b'', PStr ''y'')],
               [(PStr ''a'', PStr ''z''), (PStr ''b'', PStr '''')]]"
    by (simp add: dict_keys_def dict_get_def)
  with t wf rb show "table ?gc ''s'' ''t'' = Inr ?ws \<and> wf_dict ?r0 \<and>
   reads_back x (PStr ''x'') \<and> reads_back x (PStr ''y'') \<and> reads_back x (PStr ''z'') \<and>
   reads_back x (PStr '''') \<and>
   read_sheet x (fst (upsert_sheet ?gc ''s'' ''t'' (?r0 # ?rs))) ''s'' ''t'' =
     Inr [[(PStr ''a'', PStr ''x''), (PStr ''b'', PStr ''y'')],
          [(PStr ''a'', PStr ''z''), (PStr ''b'', PStr '''')]]"
    by simp
qed

subsection \<open>The Reports page\<close>

text \<open>
  C5. Each of the two reads of the Reports page is caught on its own. When the read of
  \<open>financial_metrics\<close> raises and the read of \<open>news\<close> succeeds, the page shows the
  placeholder for the failed table and the news frame (the placeholder as well when the
  news table gives an empty frame), and ends normally; whatever the reads do, the page
  never ends by an exception.
\<close>

theorem reports_reads_caught_independently:
  assumes "read_sheet x gc sheet_id ''financial_metrics'' = Inl e"
    and "read_sheet x gc sheet_id ''news'' = Inr rows"
  shows "page_reports x gc sheet_id =
           ([Header ''Reports'',
             Subheader ''Financial metrics'',
             Dataframe (info_frame ''No data yet''),
             Subheader ''News'',
             Dataframe (if \<not> df_empty (DataFrame x rows) then DataFrame x rows
                        else info_frame ''No data yet'')],
            Done) \<and>
         snd (page_reports x' gc' sheet_id') = Done"
  using assms
  by (simp add: page_reports_def Let_def frame_or_empty_def empty_frame_def df_empty_def)

text \<open>A spreadsheet that has the \<open>news\<close> table and no \<open>financial_metrics\<close> table.\<close>

theorem reports_reads_caught_independently_witness:
  "\<forall>x. read_sheet x [''s'' \<mapsto> [\<lparr>ws_title = ''news'', ws_rows = 100, ws_cols = 26,
       ws_cells = [[PStr ''title''], [PStr ''Quarterly results'']]\<rparr>]] ''s'' ''financial_metrics'' =
     Inl (WorksheetNotFound ''financial_metrics'') \<and>
   read_sheet x [''s'' \<mapsto> [\<lparr>ws_title = ''news'', ws_rows = 100, ws_cols = 26,
       ws_cells = [[PStr ''title''], [PStr ''Quarterly results'']]\<rparr>]] ''s'' ''news'' =
     Inr [[(PStr ''title'', PStr ''Quarterly results'')]] \<and>
   page_reports x [''s'' \<mapsto> [\<lparr>ws_title = ''news'', ws_rows = 100, ws_cols = 26,
       ws_cells = [[PStr ''title''], [PStr ''Quarterly results'']]\<rparr>]] ''s'' =
     ([Header ''Reports'',
       Subheader ''Financial metrics'',
       Dataframe \<lparr>df_columns = [PStr ''info''], df_rows = [[PStr ''No data yet'']]\<rparr>,
       Subheader ''News'',
       Dataframe \<lparr>df_columns = [PStr ''title''], df_rows = [[PStr ''Quarterly results'']]\<rparr>],
      Done)"
proof
  fix x
  let ?gc = "[''s'' \<mapsto> [\<lparr>ws_title = ''news'', ws_rows = 100, ws_cols = 26,
       ws_cells = [[PStr ''title''], [PStr ''Quarterly results'']]\<rparr>]]"
  have a: "read_sheet x ?gc ''s'' ''financial_metrics'' = Inl (WorksheetNotFound ''financial_metrics'')"
    by (simp add: read_sheet_def open_by_key_def worksheet_def)
  have b: "read_sheet x ?gc ''s'' ''news'' = Inr [[(PStr ''title'', PStr ''Quarterly results'')]]"
    by code_simp
  have d: "DataFrame x [[(PStr ''title'', PStr ''Quarterly results'')]] =
      \<lparr>df_columns = [PStr ''title''], df_rows = [[PStr ''Quarterly results'']]\<rparr>"
    by (simp add: DataFrame_def dict_keys_def dict_get_def box_def)
  from reports_reads_caught_independently [OF a b]
  have "page_reports x ?gc ''s'' =
     ([Header ''Reports'',
       Subheader ''Financial metrics'',
       Dataframe \<lparr>df_columns = [PStr ''info''], df_rows = [[PStr ''No data yet'']]\<rparr>,
       Subheader ''News'',
       Dataframe \<lparr>df_columns = [PStr ''title''], df_rows = [[PStr ''Quarterly results'']]\<rparr>],
      Done)"
    by (simp add: d df_empty_def info_frame_def)
  with a b show "read_sheet x ?gc ''s'' ''financial_metrics'' = Inl (WorksheetNotFound ''financial_metrics'') \<and>
   read_sheet x ?gc ''s'' ''news'' = Inr [[(PStr ''title'', PStr ''Quarterly results'')]] \<and>
   page_reports x ?gc ''s'' =
     ([Header ''Reports'',
       Subheader ''Financial metrics'',
       Dataframe \<lparr>df_columns = [PStr ''info''], df_rows = [[PStr ''No data yet'']]\<rparr>,
       Subheader ''News'',
       Dataframe \<lparr>df_columns = [PStr ''title''], df_rows = [[PStr ''Quarterly results'']]\<rparr>],
      Done)"
    by simp
qed

subsection \<open>The Library page\<close>

text \<open>
  C8. For a configured folder, when the Drive service answers the query for the
  non-trashed children with no entry (an empty list, or a response without the list), the
  folder query gives the empty sequence, and the Library page renders its header and the
  message for an empty library and ends normally.
\<close>

theorem library_no_children:
  assumes "top_folder_id \<noteq> []"
    and "drive (children_query top_folder_id) ''files(id,name,mimeType,webViewLink)'' = Inr resp"
    and "resp = None \<or> resp = Some []"
  shows "list_children drive top_folder_id = Inr [] \<and>
         page_library drive top_folder_id =
           ([Header ''Library (Google Drive)'',
             Write ''No items yet. Create a subfolder per competitor and drop files there.''],
            Done)"
  using assms by (auto simp: list_children_def page_library_def)

text \<open>A Drive service that finds nothing under the folder \<open>folder1\<close>.\<close>

theorem library_no_children_witness:
  "''folder1'' \<noteq> [] \<and>
   list_children (\<lambda>q fields. Inr (Some [])) ''folder1'' = Inr [] \<and>
   page_library (\<lambda>q fields. Inr (Some [])) ''folder1'' =
     ([Header ''Library (Google Drive)'',
       Write ''No items yet. Create a subfolder per competitor and drop files there.''],
      Done)"
proof -
  have n: "''folder1'' \<noteq> []" by simp
  have d: "(\<lambda>q fields. Inr (Some [])) (children_query ''folder1'')
             ''files(id,name,mimeType,webViewLink)'' = (Inr (Some []) :: error + file_entry list option)"
    by simp
  have r: "Some [] = None \<or> Some [] = Some ([] :: file_entry list)" by simp
  from library_no_children [OF n d r] n show ?thesis by simp
qed

subsection \<open>Missing credentials\<close>

text \<open>
  C6, amended. When the secret \<open>google.service_account_json\<close> is absent or empty and no
  client is cached from an earlier run, the run stops at the first client: the store is
  untouched, no page element and none of the closing sidebar lines is rendered, but the
  four sidebar elements that \<open>main\<close> renders before it asks for the client (title,
  local time, timezone, navigation) are.
\<close>

theorem missing_credentials_stop:
  assumes "secret (env_secrets e) ''google'' ''service_account_json'' = None \<or>
           secret (env_secrets e) ''google'' ''service_account_json'' = Some []"
    and "env_gc_cache e = None"
  shows "main x e gc drive =
           (gc,
            [SidebarTitle ''Competitor Intelligence'',
             SidebarCaption (''Local time: '' @ env_now e),
             SidebarWrite (''Timezone: '' @
               or_default (secret (env_secrets e) ''general'' ''timezone'') ''Europe/Berlin''),
             SidebarRadio ''Navigate'' [''Competitors'', ''Library'', ''Automations'', ''Reports'']],
            Stopped)"
  using assms
  by (auto simp: main_def Let_def get_gspread_client_def get_sa_creds_def sidebar_top_def)

text \<open>
  C6, as stated, fails: with no secrets at all the run stops, and the sidebar title, the
  local time, the timezone and the navigation have been rendered by then.
\<close>

theorem missing_credentials_partial_ui_counterexample:
  "\<forall>x. main x \<lparr>env_secrets = Map.empty, env_now = ''2025-01-01 12:00'', env_page = ''Competitors'',
          env_form = \<lparr>f_name = [], f_website = [], f_ir_url = [], f_news_rss = [],
            f_linkedin_url = [], f_tickers = [], f_currency = [], f_fiscal_notes = [],
            f_drive_folder_id = [], f_tags = [], f_submitted = False\<rparr>,
          env_gc_cache = None, env_drive_cache = None, env_creds_ok = (\<lambda>s. True)\<rparr>
        Map.empty (\<lambda>q fields. Inr None) =
     (Map.empty,
      [SidebarTitle ''Competitor Intelligence'',
       SidebarCaption ''Local time: 2025-01-01 12:00'',
       SidebarWrite ''Timezone: Europe/Berlin'',
       SidebarRadio ''Navigate'' [''Competitors'', ''Library'', ''Automations'', ''Reports'']],
      Stopped)"
  by (simp add: main_def Let_def get_gspread_client_def get_sa_creds_def sidebar_top_def
      secret_def or_default_def)

text \<open>
  The amended statement at secrets that name a timezone and a sheet and hold an empty
  credential, with the Reports page chosen.
\<close>

theorem missing_credentials_stop_witness:
  "\<forall>x. secret [''general'' \<mapsto> [''timezone'' \<mapsto> ''UTC''],
           ''google'' \<mapsto> [''service_account_json'' \<mapsto> [], ''sheet_id'' \<mapsto> ''s'']]
     ''google'' ''service_account_json'' = Some [] \<and>
   main x \<lparr>env_secrets = [''general'' \<mapsto> [''timezone'' \<mapsto> ''UTC''],
           ''google'' \<mapsto> [''service_account_json'' \<mapsto> [], ''sheet_id'' \<mapsto> ''s'']],
          env_now = ''2025-06-30 09:15'', env_page = ''Reports'',
          env_form = \<lparr>f_name = [], f_website = [], f_ir_url = [], f_news_rss = [],
            f_linkedin_url = [], f_tickers = [], f_currency = [], f_fiscal_notes = [],
            f_drive_folder_id = [], f_tags = [], f_submitted = False\<rparr>,
          env_gc_cache = None, env_drive_cache = None, env_creds_ok = (\<lambda>s. True)\<rparr>
        [''s'' \<mapsto> []] (\<lambda>q fields. Inr None) =
     ([''s'' \<mapsto> []],
      [SidebarTitle ''Competitor Intelligence'',
       SidebarCaption ''Local time: 2025-06-30 09:15'',
       SidebarWrite ''Timezone: UTC'',
       SidebarRadio ''Navigate'' [''Competitors'', ''Library'', ''Automations'', ''Reports'']],
      Stopped)"
proof -
  let ?s = "[''general'' \<mapsto> [''timezone'' \<mapsto> ''UTC''],
           ''google'' \<mapsto> [''service_account_json'' \<mapsto> [], ''sheet_id'' \<mapsto> ''s'']]"
  let ?e = "\<lparr>env_secrets = ?s,
          env_now = ''2025-06-30 09:15'', env_page = ''Reports'',
          env_form = \<lparr>f_name = [], f_website = [], f_ir_url = [], f_news_rss = [],
            f_linkedin_url = [], f_tickers = [], f_currency = [], f_fiscal_notes = [],
            f_drive_folder_id = [], f_tags = [], f_submitted = False\<rparr>,
          env_gc_cache = None, env_drive_cache = None, env_creds_ok = (\<lambda>s. True)\<rparr>"
  have a: "secret ?s ''google'' ''service_account_json'' = Some []"
    by (simp add: secret_def)
  then have h: "secret (env_secrets ?e) ''google'' ''service_account_json'' = None \<or>
      secret (env_secrets ?e) ''google'' ''service_account_json'' = Some []"
    by simp
  have c: "env_gc_cache ?e = None" by simp
  have "\<And>x. main x ?e [''s'' \<mapsto> []] (\<lambda>q fields. Inr None) =
     ([''s'' \<mapsto> []],
      [SidebarTitle ''Competitor Intelligence'',
       SidebarCaption ''Local time: 2025-06-30 09:15'',
       SidebarWrite ''Timezone: UTC'',
       SidebarRadio ''Navigate'' [''Competitors'', ''Library'', ''Automations'', ''Reports'']],
      Stopped)"
    using missing_credentials_stop [OF h c, where gc = "[''s'' \<mapsto> []]"
        and drive = "\<lambda>q fields. Inr None"]
    by (simp add: secret_def or_default_def)
  with a show ?thesis by simp
qed

subsection \<open>The Competitors page\<close>

lemma set_union_cols: "set (union_cols cs ks) = set cs \<union> set ks"
  by (induction ks arbitrary: cs) auto

lemma distinct_union_cols: "distinct cs \<Longrightarrow> distinct (union_cols cs ks)"
  by (induction ks arbitrary: cs) auto

lemma union_cols_fresh:
  "distinct ks \<Longrightarrow> set ks \<inter> set cs = {} \<Longrightarrow> union_cols cs ks = cs @ ks"
  by (induction ks arbitrary: cs) auto

lemma distinct_frame_cols_acc:
  "distinct acc \<Longrightarrow> distinct (foldl (\<lambda>cs r. union_cols cs (dict_keys r)) acc recs)"
  by (induction recs arbitrary: acc) (auto simp: distinct_union_cols)

lemma distinct_DataFrame_columns: "distinct (df_columns (DataFrame x recs))"
  by (simp add: DataFrame_def Let_def distinct_frame_cols_acc)

lemma DataFrame_Nil: "DataFrame x [] = \<lparr>df_columns = [], df_rows = []\<rparr>"
  by (simp add: DataFrame_def)

lemma dict_get_present: "map_of r k = Some v \<Longrightarrow> dict_get r k d = v"
  by (simp add: dict_get_def)

lemma box_keeps: "v \<in> set col \<Longrightarrow> \<not> is_number v \<Longrightarrow> box x col w = w"
  by (auto simp: box_def list_all_iff)

text \<open>A record without a number among its values.\<close>

lemma lookup_no_number:
  assumes "distinct (map fst r)" and "\<forall>p \<in> set r. \<not> is_number (snd p)" and "k \<in> fst ` set r"
  shows "\<not> is_number (dict_get r k d) \<and> map_of r k = Some (dict_get r k d)"
proof -
  from assms(3) obtain v where "(k, v) \<in> set r" by auto
  with assms(1) have m: "map_of r k = Some v" by simp
  from \<open>(k, v) \<in> set r\<close> assms(2) have "\<not> is_number v" by auto
  with m show ?thesis by (simp add: dict_get_def)
qed

lemma map_snd_lookup:
  "distinct (map fst r) \<Longrightarrow> map (\<lambda>c. dict_get r c d) (map fst r) = map snd r"
proof (induction r)
  case Nil
  then show ?case by simp
next
  case (Cons p r)
  obtain k v where p: "p = (k, v)" by (cases p)
  from Cons.prems p have k: "k \<notin> fst ` set r" by auto
  have "map (\<lambda>c. dict_get (p # r) c d) (map fst r) = map (\<lambda>c. dict_get r c d) (map fst r)"
    using k p by (auto simp: dict_get_def)
  with Cons p show ?case by (simp add: dict_get_def)
qed

lemma DataFrame_single:
  assumes "wf_dict r" and "\<forall>p \<in> set r. \<not> is_number (snd p)"
  shows "DataFrame x [r] = \<lparr>df_columns = dict_keys r, df_rows = [map snd r]\<rparr>"
proof -
  have d: "distinct (map fst r)" using assms(1) by (simp add: wf_dict_def)
  have cols: "union_cols [] (dict_keys r) = dict_keys r"
    using d union_cols_fresh [of "dict_keys r" "[]"] by (simp add: dict_keys_def)
  have "map (\<lambda>c. box x [dict_get r c PNaN] (dict_get r c PNaN)) (dict_keys r) =
          map (\<lambda>c. dict_get r c PNaN) (dict_keys r)"
  proof (rule map_cong [OF refl])
    fix c assume "c \<in> set (dict_keys r)"
    then have "c \<in> fst ` set r" by (simp add: dict_keys_def)
    from lookup_no_number [OF d assms(2) this]
    have "\<not> is_number (dict_get r c PNaN)" by blast
    then show "box x [dict_get r c PNaN] (dict_get r c PNaN) = dict_get r c PNaN"
      by (intro box_keeps [where v = "dict_get r c PNaN"]) simp_all
  qed
  also have "\<dots> = map snd r"
    using map_snd_lookup [OF d] by (simp add: dict_keys_def)
  finally show ?thesis
    using cols by (simp add: DataFrame_def Let_def)
qed

lemma zip_keys_values: "zip (dict_keys r) (map snd r) = r"
  by (simp add: dict_keys_def zip_map_fst_snd)

lemma to_dict_records_single:
  assumes "wf_dict r" and "\<forall>p \<in> set r. \<not> is_number (snd p)"
  shows "to_dict_records (DataFrame x [r]) = [r]"
  using assms
  by (simp add: DataFrame_single to_dict_records_def zip_keys_values dict_of_distinct wf_dict_def)

lemma wf_new_record: "wf_dict (new_record x f)"
  by (simp add: wf_dict_def new_record_def)

lemma new_record_no_number: "\<forall>p \<in> set (new_record x f). \<not> is_number (snd p)"
  by (simp add: new_record_def)

lemma new_record_sendable:
  "list_all (list_all json_ok) (upsert_data (new_record x f) [new_record x f])"
  by (simp add: upsert_data_eq new_record_def dict_keys_def dict_get_def)

lemma to_dict_records_concat_last:
  assumes wf: "wf_dict r" and nn: "\<forall>p \<in> set r. \<not> is_number (snd p)"
    and da: "distinct (df_columns a)"
  shows "\<exists>front lastrec. to_dict_records (df_concat x a (DataFrame x [r])) = front @ [lastrec] \<and>
           (\<forall>k v. map_of r k = Some v \<longrightarrow> map_of lastrec k = Some v)"
proof -
  let ?b = "\<lparr>df_columns = dict_keys r, df_rows = [map snd r]\<rparr>"
  let ?cols = "union_cols (df_columns a) (dict_keys r)"
  let ?col = "\<lambda>c. df_column a c @ df_column ?b c"
  let ?val = "\<lambda>c. box x (?col c) (dict_get r c PNaN)"
  let ?last = "map (\<lambda>c. (c, ?val c)) ?cols"
  let ?front = "map (\<lambda>row. dict_of (zip ?cols row))
        (map (\<lambda>row. map (\<lambda>c. box x (?col c) (df_value a row c)) ?cols) (df_rows a))"
  have d: "distinct (map fst r)" using wf by (simp add: wf_dict_def)
  have b: "DataFrame x [r] = ?b"
    using wf nn by (rule DataFrame_single)
  have dc: "distinct ?cols" using da by (rule distinct_union_cols)
  have bv: "\<And>c. df_value ?b (map snd r) c = dict_get r c PNaN"
    by (simp add: df_value_def zip_keys_values)
  have bc: "\<And>c. df_column ?b c = [dict_get r c PNaN]"
    using bv by (simp add: df_column_def)
  have lastrow: "dict_of (zip ?cols (map (\<lambda>c. box x (?col c) (df_value ?b (map snd r) c)) ?cols)) = ?last"
  proof -
    have "map (\<lambda>c. box x (?col c) (df_value ?b (map snd r) c)) ?cols = map ?val ?cols"
      by (simp only: bv)
    then have "zip ?cols (map (\<lambda>c. box x (?col c) (df_value ?b (map snd r) c)) ?cols) = ?last"
      by (simp only: zip_keys_row)
    moreover have "distinct (map fst ?last)" using dc by (simp add: comp_def)
    ultimately show ?thesis by (simp only: dict_of_distinct)
  qed
  have "to_dict_records (df_concat x a ?b) =
      ?front @ [dict_of (zip ?cols (map (\<lambda>c. box x (?col c) (df_value ?b (map snd r) c)) ?cols))]"
    by (simp add: to_dict_records_def df_concat_def Let_def)
  then have shape: "to_dict_records (df_concat x a (DataFrame x [r])) = ?front @ [?last]"
    by (simp only: lastrow b)
  have keep: "\<forall>k v. map_of r k = Some v \<longrightarrow> map_of ?last k = Some v"
  proof (intro allI impI)
    fix k v assume m: "map_of r k = Some v"
    then have kin: "k \<in> fst ` set r" by (auto dest: map_of_SomeD intro: rev_image_eqI)
    then have kc: "k \<in> set ?cols" by (simp add: set_union_cols dict_keys_def)
    from lookup_no_number [OF d nn kin]
    have nv: "\<not> is_number (dict_get r k PNaN)" by blast
    have "dict_get r k PNaN \<in> set (?col k)" by (simp add: bc)
    from box_keeps [OF this nv] have "?val k = dict_get r k PNaN" .
    with m have "?val k = v" by (simp add: dict_get_present)
    with kc show "map_of ?last k = Some v" by (simp add: map_of_keyed)
  qed
  from shape keep show ?thesis by blast
qed

lemma submitted_records_last:
  "submitted_records x rows f \<noteq> [] \<and>
   (\<forall>k v. map_of (new_record x f) k = Some v \<longrightarrow>
      map_of (last (submitted_records x rows f)) k = Some v)"
proof (cases "df_empty (DataFrame x rows)")
  case True
  then have "submitted_records x rows f = [new_record x f]"
    by (simp add: submitted_records_def Let_def to_dict_records_single
        wf_new_record new_record_no_number)
  then show ?thesis by simp
next
  case False
  from to_dict_records_concat_last [OF wf_new_record new_record_no_number distinct_DataFrame_columns]
  obtain front lastrec where
    fr: "to_dict_records (df_concat x (DataFrame x rows) (DataFrame x [new_record x f])) =
      front @ [lastrec]"
    and keep: "\<forall>k v. map_of (new_record x f) k = Some v \<longrightarrow> map_of lastrec k = Some v"
    by blast
  from fr False have "submitted_records x rows f = front @ [lastrec]"
    by (simp add: submitted_records_def Let_def)
  with keep show ?thesis by simp
qed

lemma submitted_records_blank: "submitted_records x [] f = [new_record x f]"
  by (simp add: submitted_records_def Let_def DataFrame_Nil df_empty_def
      to_dict_records_single wf_new_record new_record_no_number)

lemma worksheet_present:
  "name \<in> set (map ws_title sh) \<Longrightarrow> \<exists>ws. worksheet sh name = Inr ws"
  by (induction sh) (auto simp: worksheet_def)

text \<open>
  C10. When the spreadsheet opens, the table is read and the form is submitted, the
  Competitors page passes to \<open>upsert_sheet\<close> a list that is not empty and whose last
  record holds every field of the new record with its value, among them
  \<open>active(bool)\<close> true and empty \<open>created_at\<close> and \<open>updated_at\<close>. So
  \<open>upsert_sheet\<close> does not return at its guard: its result is that of the update call
  on the \<open>competitors\<close> table. When all the data can be sent, as it can when the table
  was blank, the page ends normally with the message that the record is saved; when
  pandas has filled a cell with NaN, the update call raises, the table is left as it was
  and the message is not shown.
\<close>

theorem competitors_submission_writes:
  assumes opened: "open_by_key gc sheet_id = Inr sh"
    and rd: "read_sheet x (gc(sheet_id \<mapsto> fst (ensure_sheets sh))) sheet_id ''competitors'' = Inr rows"
    and sub: "f_submitted f"
  shows "\<exists>r0 rest.
     submitted_records x rows f = r0 # rest \<and>
     map_of (last (r0 # rest)) (PStr ''active(bool)'') = Some (PBool True) \<and>
     map_of (last (r0 # rest)) (PStr ''created_at'') = Some (PStr '''') \<and>
     map_of (last (r0 # rest)) (PStr ''updated_at'') = Some (PStr '''') \<and>
     (\<forall>k v. map_of (new_record x f) k = Some v \<longrightarrow> map_of (last (r0 # rest)) k = Some v) \<and>
     upsert_sheet (gc(sheet_id \<mapsto> fst (ensure_sheets sh))) sheet_id ''competitors'' (r0 # rest) =
       ws_update (gc(sheet_id \<mapsto> fst (ensure_sheets sh))) sheet_id ''competitors''
         (upsert_data r0 (r0 # rest)) \<and>
     (list_all (list_all json_ok) (upsert_data r0 (r0 # rest)) \<longrightarrow>
        fst (page_competitors x gc sheet_id f) =
          fst (ws_update (gc(sheet_id \<mapsto> fst (ensure_sheets sh))) sheet_id ''competitors''
            (upsert_data r0 (r0 # rest))) \<and>
        last (fst (snd (page_competitors x gc sheet_id f))) = Success ''Saved!'' \<and>
        snd (snd (page_competitors x gc sheet_id f)) = Done) \<and>
     (\<not> list_all (list_all json_ok) (upsert_data r0 (r0 # rest)) \<longrightarrow>
        fst (page_competitors x gc sheet_id f) = gc(sheet_id \<mapsto> fst (ensure_sheets sh)) \<and>
        Success ''Saved!'' \<notin> set (fst (snd (page_competitors x gc sheet_id f))) \<and>
        snd (snd (page_competitors x gc sheet_id f)) = Raised InvalidJSONError) \<and>
     (rows = [] \<longrightarrow> list_all (list_all json_ok) (upsert_data r0 (r0 # rest)))"
proof -
  define sh1 where "sh1 = fst (ensure_sheets sh)"
  let ?gc1 = "gc(sheet_id \<mapsto> sh1)"
  have ens: "ensure_sheets sh = (sh1, Inr ())"
    by (simp add: sh1_def ensure_sheets_closed)
  have "''competitors'' \<in> set (map ws_title sh1)"
    using ensure_sheets_has_needed [of sh] by (auto simp: needed_def sh1_def)
  then obtain ws where ws: "worksheet sh1 ''competitors'' = Inr ws"
    using worksheet_present by blast
  then have tb: "table ?gc1 sheet_id ''competitors'' = Inr ws"
    by (simp add: table_def open_by_key_def)
  have rd1: "read_sheet x ?gc1 sheet_id ''competitors'' = Inr rows"
    using rd by (simp add: sh1_def)
  from submitted_records_last [of x rows f]
  obtain r0 rest where recs: "submitted_records x rows f = r0 # rest"
    and keep: "\<forall>k v. map_of (new_record x f) k = Some v \<longrightarrow> map_of (last (r0 # rest)) k = Some v"
    by (cases "submitted_records x rows f") auto
  let ?data = "upsert_data r0 (r0 # rest)"
  let ?ui1 = "[Header ''Competitors''] @
         [Subheader ''Database'',
          Dataframe (if \<not> df_empty (DataFrame x rows) then DataFrame x rows
                     else info_frame ''No rows yet''),
          Subheader ''Add / Edit''] @ form_elements"
  have a: "map_of (last (r0 # rest)) (PStr ''active(bool)'') = Some (PBool True)"
    using keep by (simp add: new_record_def)
  have c: "map_of (last (r0 # rest)) (PStr ''created_at'') = Some (PStr '''')"
    using keep by (simp add: new_record_def)
  have u: "map_of (last (r0 # rest)) (PStr ''updated_at'') = Some (PStr '''')"
    using keep by (simp add: new_record_def)
  have up: "upsert_sheet ?gc1 sheet_id ''competitors'' (r0 # rest) =
      ws_update ?gc1 sheet_id ''competitors'' ?data"
    using tb by (rule upsert_sheet_nonempty)
  have page: "page_competitors x gc sheet_id f =
      (case ws_update ?gc1 sheet_id ''competitors'' ?data of
         (gc2, Inl e) \<Rightarrow> (gc2, ?ui1, Raised e)
       | (gc2, Inr u) \<Rightarrow> (gc2, ?ui1 @ [Success ''Saved!''], Done))"
    using opened sub ens rd1 recs up
    by (simp add: page_competitors_def Let_def split: prod.splits sum.splits)
  have good: "list_all (list_all json_ok) ?data \<longrightarrow>
        fst (page_competitors x gc sheet_id f) = fst (ws_update ?gc1 sheet_id ''competitors'' ?data) \<and>
        last (fst (snd (page_competitors x gc sheet_id f))) = Success ''Saved!'' \<and>
        snd (snd (page_competitors x gc sheet_id f)) = Done"
  proof
    assume ok: "list_all (list_all json_ok) ?data"
    from ws_update_sent [OF tb ok]
    have "snd (ws_update ?gc1 sheet_id ''competitors'' ?data) = Inr ()" by simp
    then obtain gc2 where "ws_update ?gc1 sheet_id ''competitors'' ?data = (gc2, Inr ())"
      by (cases "ws_update ?gc1 sheet_id ''competitors'' ?data") auto
    then show "fst (page_competitors x gc sheet_id f) =
          fst (ws_update ?gc1 sheet_id ''competitors'' ?data) \<and>
        last (fst (snd (page_competitors x gc sheet_id f))) = Success ''Saved!'' \<and>
        snd (snd (page_competitors x gc sheet_id f)) = Done"
      by (simp add: page)
  qed
  have bad: "\<not> list_all (list_all json_ok) ?data \<longrightarrow>
        fst (page_competitors x gc sheet_id f) = ?gc1 \<and>
        Success ''Saved!'' \<notin> set (fst (snd (page_competitors x gc sheet_id f))) \<and>
        snd (snd (page_competitors x gc sheet_id f)) = Raised InvalidJSONError"
  proof
    assume "\<not> list_all (list_all json_ok) ?data"
    then have "ws_update ?gc1 sheet_id ''competitors'' ?data = (?gc1, Inl InvalidJSONError)"
      by (rule ws_update_refused)
    then show "fst (page_competitors x gc sheet_id f) = ?gc1 \<and>
        Success ''Saved!'' \<notin> set (fst (snd (page_competitors x gc sheet_id f))) \<and>
        snd (snd (page_competitors x gc sheet_id f)) = Raised InvalidJSONError"
      by (simp add: page form_elements_def)
  qed
  have blank: "rows = [] \<longrightarrow> list_all (list_all json_ok) ?data"
  proof
    assume "rows = []"
    with recs have "r0 = new_record x f" and "rest = []"
      by (simp_all add: submitted_records_blank)
    then show "list_all (list_all json_ok) ?data"
      using new_record_sendable [of x f] by simp
  qed
  from recs a c u keep up good bad blank show ?thesis
    unfolding sh1_def by blast
qed

text \<open>
  The submission of \<open>Acme Corp\<close>, first on a spreadsheet that has no worksheet yet: the
  page ends normally and the table reads back as the one new record, its flag as the text
  \<open>TRUE\<close>. Then on a table with the two columns \<open>id\<close> and \<open>name\<close> and one row:
  the old row gets NaN in the other columns, the update raises and the table is unchanged.
\<close>

theorem competitors_submission_writes_witness:
  "\<forall>x. open_by_key [''s'' \<mapsto> []] ''s'' = Inr [] \<and>
   read_sheet x ([''s'' \<mapsto> []](''s'' \<mapsto> fst (ensure_sheets []))) ''s'' ''competitors'' = Inr [] \<and>
   snd (snd (page_competitors x [''s'' \<mapsto> []] ''s''
       \<lparr>f_name = ''Acme Corp'', f_website = ''https://acme.example'', f_ir_url = [],
        f_news_rss = [], f_linkedin_url = [], f_tickers = ''ACME'', f_currency = ''EUR'',
        f_fiscal_notes = [], f_drive_folder_id = [], f_tags = [], f_submitted = True\<rparr>)) = Done \<and>
   read_sheet x (fst (page_competitors x [''s'' \<mapsto> []] ''s''
       \<lparr>f_name = ''Acme Corp'', f_website = ''https://acme.example'', f_ir_url = [],
        f_news_rss = [], f_linkedin_url = [], f_tickers = ''ACME'', f_currency = ''EUR'',
        f_fiscal_notes = [], f_drive_folder_id = [], f_tags = [], f_submitted = True\<rparr>))
     ''s'' ''competitors'' =
   Inr [[(PStr ''id'', PStr ''acme-corp''),
         (PStr ''name'', PStr ''Acme Corp''),
         (PStr ''website'', PStr ''https://acme.example''),
         (PStr ''ir_url'', PStr ''''),
         (PStr ''news_rss'', PStr ''''),
         (PStr ''linkedin_url'', PStr ''''),
         (PStr ''tickers'', PStr ''ACME''),
         (PStr ''currency'', PStr ''EUR''),
         (PStr ''fiscal_calendar_notes'', PStr ''''),
         (PStr ''drive_folder_id'', PStr ''''),
         (PStr ''tags'', PStr ''''),
         (PStr ''active(bool)'', PStr ''TRUE''),
         (PStr ''created_at'', PStr ''''),
         (PStr ''updated_at'', PStr '''')]] \<and>
   snd (snd (page_competitors x
       [''s'' \<mapsto> [\<lparr>ws_title = ''competitors'', ws_rows = 100, ws_cols = 26,
          ws_cells = [[PStr ''id'', PStr ''name''], [PStr ''old'', PStr ''Old'']]\<rparr>]] ''s''
       \<lparr>f_name = ''Acme Corp'', f_website = ''https://acme.example'', f_ir_url = [],
        f_news_rss = [], f_linkedin_url = [], f_tickers = ''ACME'', f_currency = ''EUR'',
        f_fiscal_notes = [], f_drive_folder_id = [], f_tags = [], f_submitted = True\<rparr>)) =
     Raised InvalidJSONError \<and>
   read_sheet x (fst (page_competitors x
       [''s'' \<mapsto> [\<lparr>ws_title = ''competitors'', ws_rows = 100, ws_cols = 26,
          ws_cells = [[PStr ''id'', PStr ''name''], [PStr ''old'', PStr ''Old'']]\<rparr>]] ''s''
       \<lparr>f_name = ''Acme Corp'', f_website = ''https://acme.example'', f_ir_url = [],
        f_news_rss = [], f_linkedin_url = [], f_tickers = ''ACME'', f_currency = ''EUR'',
        f_fiscal_notes = [], f_drive_folder_id = [], f_tags = [], f_submitted = True\<rparr>))
     ''s'' ''competitors'' =
   Inr [[(PStr ''id'', PStr ''old''), (PStr ''name'', PStr ''Old'')]]"
proof
  fix x
  let ?gc = "[''s'' \<mapsto> ([] :: spreadsheet)]"
  let ?old = "[''s'' \<mapsto> [\<lparr>ws_title = ''competitors'', ws_rows = 100, ws_cols = 26,
          ws_cells = [[PStr ''id'', PStr ''name''], [PStr ''old'', PStr ''Old'']]\<rparr>]]"
  let ?f = "\<lparr>f_name = ''Acme Corp'', f_website = ''https://acme.example'', f_ir_url = [],
        f_news_rss = [], f_linkedin_url = [], f_tickers = ''ACME'', f_currency = ''EUR'',
        f_fiscal_notes = [], f_drive_folder_id = [], f_tags = [], f_submitted = True\<rparr>"
  have o: "open_by_key ?gc ''s'' = Inr []"
    by (simp add: open_by_key_def)
  have r0: "read_sheet x (?gc(''s'' \<mapsto> fst (ensure_sheets []))) ''s'' ''competitors'' = Inr []"
    by code_simp
  have s: "f_submitted ?f" by simp
  from competitors_submission_writes [OF o r0 s]
  have d: "snd (snd (page_competitors x ?gc ''s'' ?f)) = Done"
    by blast
  have r: "read_sheet x (fst (page_competitors x ?gc ''s'' ?f)) ''s'' ''competitors'' =
   Inr [[(PStr ''id'', PStr ''acme-corp''),
         (PStr ''name'', PStr ''Acme Corp''),
         (PStr ''website'', PStr ''https://acme.example''),
         (PStr ''ir_url'', PStr ''''),
         (PStr ''news_rss'', PStr ''''),
         (PStr ''linkedin_url'', PStr ''''),
         (PStr ''tickers'', PStr ''ACME''),
         (PStr ''currency'', PStr ''EUR''),
         (PStr ''fiscal_calendar_notes'', PStr ''''),
         (PStr ''drive_folder_id'', PStr ''''),
         (PStr ''tags'', PStr ''''),
         (PStr ''active(bool)'', PStr ''TRUE''),
         (PStr ''created_at'', PStr ''''),
         (PStr ''updated_at'', PStr '''')]]"
    by code_simp
  have e: "snd (snd (page_competitors x ?old ''s'' ?f)) = Raised InvalidJSONError"
    by code_simp
  have k: "read_sheet x (fst (page_competitors x ?old ''s'' ?f)) ''s'' ''competitors'' =
      Inr [[(PStr ''id'', PStr ''old''), (PStr ''name'', PStr ''Old'')]]"
    by code_simp
  from o r0 d r e k
  show "open_by_key ?gc ''s'' = Inr [] \<and>
   read_sheet x (?gc(''s'' \<mapsto> fst (ensure_sheets []))) ''s'' ''competitors'' = Inr [] \<and>
   snd (snd (page_competitors x ?gc ''s'' ?f)) = Done \<and>
   read_sheet x (fst (page_competitors x ?gc ''s'' ?f)) ''s'' ''competitors'' =
   Inr [[(PStr ''id'', PStr ''acme-corp''),
         (PStr ''name'', PStr ''Acme Corp''),
         (PStr ''website'', PStr ''https://acme.example''),
         (PStr ''ir_url'', PStr ''''),
         (PStr ''news_rss'', PStr ''''),
         (PStr ''linkedin_url'', PStr ''''),
         (PStr ''tickers'', PStr ''ACME''),
         (PStr ''currency'', PStr ''EUR''),
         (PStr ''fiscal_calendar_notes'', PStr ''''),
         (PStr ''drive_folder_id'', PStr ''''),
         (PStr ''tags'', PStr ''''),
         (PStr ''active(bool)'', PStr ''TRUE''),
         (PStr ''created_at'', PStr ''''),
         (PStr ''updated_at'', PStr '''')]] \<and>
   snd (snd (page_competitors x ?old ''s'' ?f)) = Raised InvalidJSONError \<and>
   read_sheet x (fst (page_competitors x ?old ''s'' ?f)) ''s'' ''competitors'' =
     Inr [[(PStr ''id'', PStr ''old''), (PStr ''name'', PStr ''Old'')]]"
    by simp
qed

end
